theory Spec2Isabelle
  imports Complex_Main "HOL-Library.Sublist"
begin

section \<open>Python values used by the program\<close>

text \<open>
  Text is modelled as \<^typ>\<open>string\<close>: a sequence of 8-bit characters, read as the code
  points U+0000 to U+00FF of a Python \<open>str\<close>. Exceptions that the modelled code can raise
  are values of \<open>py_error\<close>; a function that can raise returns \<open>py_error + 'a\<close>.
\<close>

datatype py_error = ValueError | IndexError

text \<open>\<open>str.isspace\<close> on one character, for the code points below 256.\<close>

definition isspace :: "char \<Rightarrow> bool" where
  "isspace c =
     (let n = (of_char c :: nat)
      in (9 \<le> n \<and> n \<le> 13) \<or> (28 \<le> n \<and> n \<le> 32) \<or> n = 133 \<or> n = 160)"

text \<open>
  \<open>text.split()\<close> with no separator: runs of whitespace separate the words, and no empty
  word is produced. The first argument is the word collected so far.
\<close>

fun split_words :: "string \<Rightarrow> string \<Rightarrow> string list" where
  "split_words w [] = (if w = [] then [] else [w])"
| "split_words w (c # cs) =
     (if isspace c then (if w = [] then split_words [] cs else w # split_words [] cs)
      else split_words (w @ [c]) cs)"

definition str_split :: "string \<Rightarrow> string list" where
  "str_split s = split_words [] s"

text \<open>\<open>sep.join(ws)\<close>.\<close>

fun str_join :: "string \<Rightarrow> string list \<Rightarrow> string" where
  "str_join sep [] = []"
| "str_join sep [w] = w"
| "str_join sep (w # ws) = w @ sep @ str_join sep ws"

text \<open>
  Slice bounds: a negative bound counts from the end, and every bound is clamped to the
  length. \<open>xs[lo:hi]\<close>, \<open>xs[lo:]\<close> and \<open>xs[:hi]\<close>.
\<close>

definition clamp_index :: "nat \<Rightarrow> int \<Rightarrow> nat" where
  "clamp_index n i = (if i < 0 then nat (max 0 (int n + i)) else min n (nat i))"

definition py_slice :: "'a list \<Rightarrow> int \<Rightarrow> int \<Rightarrow> 'a list" where
  "py_slice xs lo hi =
     (let a = clamp_index (length xs) lo; b = clamp_index (length xs) hi
      in take (b - a) (drop a xs))"

definition py_slice_from :: "'a list \<Rightarrow> int \<Rightarrow> 'a list" where
  "py_slice_from xs lo = drop (clamp_index (length xs) lo) xs"

definition py_slice_to :: "'a list \<Rightarrow> int \<Rightarrow> 'a list" where
  "py_slice_to xs hi = take (clamp_index (length xs) hi) xs"

text \<open>\<open>range(start, stop, step)\<close> as the list it iterates over; a zero step raises.\<close>

definition py_range :: "int \<Rightarrow> int \<Rightarrow> int \<Rightarrow> py_error + int list" where
  "py_range start stop step =
     (if step = 0 then Inl ValueError
      else if 0 < step then
        Inr (map (\<lambda>j. start + int j * step) [0..<nat ((stop - start + step - 1) div step)])
      else
        Inr (map (\<lambda>j. start + int j * step) [0..<nat ((start - stop - step - 1) div (- step))]))"

section \<open>The knowledge base (legal\_rag\_system.py)\<close>

record 'e document =
  title :: string
  chunk_id :: nat
  content :: string
  embedding :: 'e

text \<open>A search result: a copy of the document with its similarity added.\<close>

record ('e, 'r) relevant_doc = "'e document" +
  similarity :: 'r

record 'e legal_knowledge_base =
  documents :: "'e document list"
  embeddings :: "'e list"

definition legal_knowledge_base_init :: "'e legal_knowledge_base" where
  "legal_knowledge_base_init = \<lparr>documents = [], embeddings = []\<rparr>"

text \<open>\<open>LegalKnowledgeBase.split_into_chunks\<close>.\<close>

definition split_into_chunks :: "string \<Rightarrow> int \<Rightarrow> py_error + string list" where
  "split_into_chunks text chunk_size =
     (let words = str_split text
      in case py_range 0 (int (length words)) chunk_size of
           Inl e \<Rightarrow> Inl e
         | Inr is \<Rightarrow> Inr (map (\<lambda>i. str_join '' '' (py_slice words i (i + chunk_size))) is))"

text \<open>
  \<open>LegalKnowledgeBase.add_legal_document\<close>. The embedding model \<open>encode\<close> is an external
  library and is a parameter. The loop body appends one document and its embedding.
\<close>

definition append_chunk ::
  "(string \<Rightarrow> 'e) \<Rightarrow> string \<Rightarrow> nat \<times> string \<Rightarrow> 'e legal_knowledge_base \<Rightarrow> 'e legal_knowledge_base" where
  "append_chunk encode ttl ic kb =
     (let doc = \<lparr>title = ttl, chunk_id = fst ic, content = snd ic, embedding = encode (snd ic)\<rparr>
      in kb\<lparr>documents := documents kb @ [doc], embeddings := embeddings kb @ [embedding doc]\<rparr>)"

definition add_legal_document ::
  "(string \<Rightarrow> 'e) \<Rightarrow> 'e legal_knowledge_base \<Rightarrow> string \<Rightarrow> string \<Rightarrow> py_error + 'e legal_knowledge_base" where
  "add_legal_document encode kb ttl text =
     (case split_into_chunks text 500 of
        Inl e \<Rightarrow> Inl e
      | Inr chunks \<Rightarrow> Inr (fold (append_chunk encode ttl) (enumerate 0 chunks) kb))"

text \<open>
  \<open>numpy.argsort\<close> is an external library function and a parameter of the search. What numpy
  promises of it is \<open>is_argsort\<close>: the result lists every index of the array once, and the
  values read in that order ascend. Among equal values numpy's default sort promises no
  order, and none is assumed.
\<close>

definition is_argsort :: "('r::linorder list \<Rightarrow> nat list) \<Rightarrow> bool" where
  "is_argsort argsort =
     (\<forall>xs. distinct (argsort xs) \<and> set (argsort xs) = {0..<length xs}
           \<and> sorted (map (\<lambda>i. xs ! i) (argsort xs)))"

text \<open>The loop over \<open>top_indices\<close>; an index outside a list raises.\<close>

fun relevant_docs_loop ::
  "'e document list \<Rightarrow> 'r list \<Rightarrow> nat list \<Rightarrow> py_error + ('e, 'r) relevant_doc list" where
  "relevant_docs_loop docs sims [] = Inr []"
| "relevant_docs_loop docs sims (idx # rest) =
     (if idx < length docs \<and> idx < length sims then
        (case relevant_docs_loop docs sims rest of
           Inl e \<Rightarrow> Inl e
         | Inr r \<Rightarrow> Inr (document.extend (docs ! idx) (relevant_doc.fields (sims ! idx)) # r))
      else Inl IndexError)"

text \<open>
  \<open>LegalKnowledgeBase.search_relevant_docs\<close>. \<open>cosine_similarity\<close> (scikit-learn) is a
  parameter giving the score of the query embedding against one stored embedding; it
  rejects an empty list of embeddings. \<open>argsort\<close> is numpy's.
\<close>

definition search_relevant_docs ::
  "(string \<Rightarrow> 'e) \<Rightarrow> ('e \<Rightarrow> 'e \<Rightarrow> 'r::linorder) \<Rightarrow> ('r list \<Rightarrow> nat list)
     \<Rightarrow> 'e legal_knowledge_base \<Rightarrow> string \<Rightarrow> int
     \<Rightarrow> py_error + ('e, 'r) relevant_doc list" where
  "search_relevant_docs encode cosine_similarity argsort kb query top_k =
     (if documents kb = [] then Inr []
      else if embeddings kb = [] then Inl ValueError
      else
        let query_embedding = encode query;
            similarities = map (cosine_similarity query_embedding) (embeddings kb);
            top_indices = rev (py_slice_from (argsort similarities) (- top_k))
        in relevant_docs_loop (documents kb) similarities top_indices)"

text \<open>A store as the program builds it: documents added one after another to an empty base.\<close>

fun load_documents ::
  "(string \<Rightarrow> 'e) \<Rightarrow> (string \<times> string) list \<Rightarrow> 'e legal_knowledge_base \<Rightarrow> py_error + 'e legal_knowledge_base" where
  "load_documents encode [] kb = Inr kb"
| "load_documents encode ((ttl, text) # rest) kb =
     (case add_legal_document encode kb ttl text of
        Inl e \<Rightarrow> Inl e
      | Inr kb' \<Rightarrow> load_documents encode rest kb')"


section \<open>More Python strings\<close>

text \<open>\<open>str.lower\<close> on one character, for the code points below 256, and on a string.\<close>

definition char_lower :: "char \<Rightarrow> char" where
  "char_lower c =
     (let n = (of_char c :: nat)
      in if (65 \<le> n \<and> n \<le> 90) \<or> (192 \<le> n \<and> n \<le> 222 \<and> n \<noteq> 215) then char_of (n + 32) else c)"

definition str_lower :: "string \<Rightarrow> string" where
  "str_lower s = map char_lower s"

text \<open>\<open>s.strip()\<close>: whitespace removed at both ends.\<close>

definition str_strip :: "string \<Rightarrow> string" where
  "str_strip s = rev (dropWhile isspace (rev (dropWhile isspace s)))"

text \<open>
  \<open>s.split(sep)\<close> for a separator that is not empty (every call below passes a literal):
  the pieces between the occurrences of \<open>sep\<close>, found from the left. The second argument is
  the piece collected so far. The test \<open>sub in s\<close> on strings is \<^const>\<open>sublist\<close>.
\<close>

function split_sep :: "string \<Rightarrow> string \<Rightarrow> string \<Rightarrow> string list" where
  "split_sep sep piece [] = [piece]"
| "split_sep sep piece (c # cs) =
     (if sep \<noteq> [] \<and> prefix sep (c # cs) then piece # split_sep sep [] (drop (length sep - 1) cs)
      else split_sep sep (piece @ [c]) cs)"
  by pat_completeness auto
termination
  by (relation "measure (\<lambda>(sep, piece, s). length s)") auto

definition str_split_sep :: "string \<Rightarrow> string \<Rightarrow> string list" where
  "str_split_sep s sep = split_sep sep [] s"

text \<open>\<open>s.replace(old, new)\<close> for an \<open>old\<close> that is not empty.\<close>

function str_replace :: "string \<Rightarrow> string \<Rightarrow> string \<Rightarrow> string" where
  "str_replace old new [] = []"
| "str_replace old new (c # cs) =
     (if old \<noteq> [] \<and> prefix old (c # cs) then new @ str_replace old new (drop (length old - 1) cs)
      else c # str_replace old new cs)"
  by pat_completeness auto
termination
  by (relation "measure (\<lambda>(old, new, s). length s)") auto

text \<open>\<open>d.get(key, default)\<close> on a dictionary.\<close>

definition dict_get :: "('k \<rightharpoonup> 'v) \<Rightarrow> 'k \<Rightarrow> 'v \<Rightarrow> 'v" where
  "dict_get d key dflt = (case d key of None \<Rightarrow> dflt | Some v \<Rightarrow> v)"

text \<open>
  A value that is a string or \<open>None\<close>, and its text in an f-string.
\<close>

definition py_str :: "string option \<Rightarrow> string" where
  "py_str v = (case v of None \<Rightarrow> ''None'' | Some s \<Rightarrow> s)"

section \<open>The generation backends (multi\_ai\_consultation.py)\<close>

text \<open>
  The world outside the program. \<open>OLLAMA_AVAILABLE\<close> and \<open>OLLAMA_METHOD\<close> are the two module
  globals set once at import. The other fields are the external calls: the embedding model,
  the cosine similarity and numpy's \<open>argsort\<close> of the knowledge base, \<open>ollama.generate\<close> (model, prompt,
  temperature) and \<open>subprocess.run\<close> (the argument list), each given the calls made so far
  and returning either the text of the exception it raises (\<open>Inl\<close>) or its result (for
  \<open>subprocess.run\<close>: return code, standard output, standard error), and the clock read when
  the transcript entry of a given position is appended.
\<close>

datatype backend_call =
    Ollama_generate string string string
  | Subprocess_run "string list"
  | Mock_generate string string

record ('e, 'r) env =
  OLLAMA_AVAILABLE :: bool
  OLLAMA_METHOD :: string
  model_encode :: "string \<Rightarrow> 'e"
  cosine_similarity :: "'e \<Rightarrow> 'e \<Rightarrow> 'r"
  numpy_argsort :: "'r list \<Rightarrow> nat list"
  ollama_generate :: "backend_call list \<Rightarrow> string \<Rightarrow> string \<Rightarrow> string \<Rightarrow> string + string"
  subprocess_run :: "backend_call list \<Rightarrow> string list \<Rightarrow> string + (int \<times> string \<times> string)"
  datetime_now :: "nat \<Rightarrow> nat"

text \<open>
  \<open>generate_with_ollama_cli\<close>. First the short prompt it builds from the full prompt: the
  loop over the lines keeps the query of the last line that holds \<open>USER QUERY:\<close> (the
  variable \<open>ai_name\<close> it also sets is never read). Then the function: the response text and
  the calls made; every exception is caught and becomes the response.
\<close>

definition cli_short_prompt :: "string \<Rightarrow> string" where
  \<open>cli_short_prompt prompt =
     (let lines = str_split_sep prompt ''\<newline>'';
          user_query =
            fold (\<lambda>line user_query.
                    if sublist ''USER QUERY:'' line
                    then str_strip (last (str_split_sep line ''USER QUERY:''))
                    else user_query) lines ''''
      in if sublist ''Legal-AI'' prompt then
          ''You are Legal-AI, a conservative legal expert. User asks: '' @
          user_query @
          ''. Respond as Legal-AI briefly.''
         else if sublist ''Tech-AI'' prompt then
          ''You are Tech-AI, a pragmatic technical expert. User asks: '' @
          user_query @
          ''. Respond as Tech-AI briefly.''
         else if sublist ''Business-AI'' prompt then
          ''You are Business-AI, a strategic business expert. User asks: '' @
          user_query @
          ''. Respond as Business-AI briefly.''
         else
          ''User asks: '' @
          user_query @
          ''. Respond briefly.'')\<close>

definition generate_with_ollama_cli ::
  "('e, 'r) env \<Rightarrow> backend_call list \<Rightarrow> string \<Rightarrow> string \<Rightarrow> string \<times> backend_call list" where
  "generate_with_ollama_cli env calls model prompt =
     (let args = [''ollama'', ''run'', model, cli_short_prompt prompt]
      in (case subprocess_run env calls args of
            Inl e \<Rightarrow> ''CLI Error: '' @ e
          | Inr (returncode, stdout, stderr) \<Rightarrow>
              if returncode = 0 then str_strip stdout else ''Error: '' @ stderr,
          calls @ [Subprocess_run args]))"

text \<open>\<open>MockOllama.generate\<close>: the response text (the simulated delay has no result).\<close>

definition mock_generate :: "string \<Rightarrow> string \<Rightarrow> string" where
  \<open>mock_generate model prompt =
     (let user_input =
            (if sublist ''USER QUERY:'' prompt
             then str_lower (str_strip (last (str_split_sep prompt ''USER QUERY:'')))
             else '''')
      in if sublist ''legal'' (str_lower model) \<or> sublist ''Legal-AI'' prompt then
        (if list_ex (\<lambda>word. sublist word user_input) [''hi'', ''hello'', ''hey'', ''greet''] then
          ''Hello! I'm Legal-AI, your legal expert. I'm here to help you navigate legal complexities and identify potential risks. What legal matters can I assist you with today?''
        else if list_ex (\<lambda>word. sublist word user_input) [''scrape'', ''scraping'', ''data''] then
          ''I must advise caution regarding web scraping. This often violates Terms of Service and could expose you to legal action under the Computer Fraud and Abuse Act. Let's explore compliant alternatives.''
        else if list_ex (\<lambda>word. sublist word user_input) [''track'', ''tracking'', ''analytics''] then
          ''User tracking raises significant privacy law concerns. We need to consider GDPR, CCPA compliance, and ensure proper consent mechanisms are in place.''
        else
          ''From a legal perspective, I need to evaluate the regulatory implications and potential risks involved. Could you provide more details about the specific legal aspects you're concerned about?'')
      else if sublist ''tech'' (str_lower model) \<or> sublist ''Tech-AI'' prompt then
        (if list_ex (\<lambda>word. sublist word user_input) [''hi'', ''hello'', ''hey'', ''greet''] then
          ''Hey there! I'm Tech-AI, your technical expert. I focus on practical solutions and efficient implementation. What technical challenge can I help you solve today?''
        else if list_ex (\<lambda>word. sublist word user_input) [''scrape'', ''scraping'', ''data''] then
          ''From a technical standpoint, web scraping is straightforward using tools like Scrapy, Beautiful Soup, or Selenium. @Legal-AI might be overthinking the compliance aspects - most basic data collection is fine.''
        else if list_ex (\<lambda>word. sublist word user_input) [''track'', ''tracking'', ''analytics''] then
          ''User tracking is easy to implement with Google Analytics, custom event tracking, or tools like Mixpanel. @Legal-AI, privacy compliance is just a matter of adding proper cookie banners.''
        else
          ''This looks technically feasible. I can outline several implementation approaches using modern frameworks. What's the specific technical requirement you're trying to solve?'')
      else if sublist ''business'' (str_lower model) \<or> sublist ''Business-AI'' prompt then
        (if list_ex (\<lambda>word. sublist word user_input) [''hi'', ''hello'', ''hey'', ''greet''] then
          ''Hello! I'm Business-AI, your strategic advisor. I help balance legal requirements with technical possibilities to achieve business objectives. What business challenge shall we tackle?''
        else if list_ex (\<lambda>word. sublist word user_input) [''scrape'', ''scraping'', ''data''] then
          ''I see both perspectives here. @Legal-AI raises valid compliance concerns, but @Tech-AI is right about competitive necessity. What if we start with publicly available data and explore API partnerships?''
        else if list_ex (\<lambda>word. sublist word user_input) [''track'', ''tracking'', ''analytics''] then
          ''User analytics can provide valuable business insights. Let's find a balanced approach that satisfies @Legal-AI's compliance requirements while meeting @Tech-AI's implementation efficiency.''
        else
          ''Let's evaluate this from a business perspective - what's the ROI, competitive impact, and strategic value? I can help mediate between technical possibilities and legal constraints.'')
      else
        ''I understand your query. Let me provide a thoughtful analysis based on my expertise.'')\<close>

section \<open>Personas (multi\_ai\_consultation.py, specialized\_legal\_prompts.py)\<close>

text \<open>
  A transcript entry and a response share the keys \<open>speaker\<close> and \<open>message\<close>. A message is
  the value \<open>generate_response\<close> returned, which is a string or \<open>None\<close>.
\<close>

record entry =
  speaker :: string
  message :: "string option"

record turn = entry +
  timestamp :: nat

record response = entry +
  ai_key :: string

text \<open>
  \<open>PromptManager\<close>: the three \<open>SYSTEM_PROMPT\<close> class constants are data of the record.
\<close>

record prompt_manager =
  legal_system_prompt :: string
  tech_system_prompt :: string
  business_system_prompt :: string

definition get_system_prompt :: "prompt_manager \<Rightarrow> string \<Rightarrow> string" where
  "get_system_prompt pm ai_type =
     dict_get (map_of [(''legal'', legal_system_prompt pm),
                       (''tech'', tech_system_prompt pm),
                       (''business'', business_system_prompt pm)]) ai_type ''''"

text \<open>
  \<open>AIPersona\<close>. A personality value is kept as the text an f-string gives it. The attribute
  \<open>prompt_manager\<close>, attached by the orchestrator or absent, is \<open>persona_prompt_manager\<close>,
  and the persona's own, never used, \<open>conversation_history\<close> is \<open>persona_history\<close>.
\<close>

record 'e ai_persona =
  name :: string
  role :: string
  personality :: "string \<rightharpoonup> string"
  model_name :: string
  persona_history :: "entry list"
  knowledge_base :: "'e legal_knowledge_base option"
  persona_prompt_manager :: "prompt_manager option"

definition ai_persona_init ::
  "string \<Rightarrow> string \<Rightarrow> (string \<rightharpoonup> string) \<Rightarrow> string \<Rightarrow> 'e ai_persona" where
  "ai_persona_init nm rl pers mdl =
     \<lparr>name = nm, role = rl, personality = pers, model_name = mdl, persona_history = [],
      knowledge_base = None, persona_prompt_manager = None\<rparr>"

definition set_knowledge_base :: "'e ai_persona \<Rightarrow> 'e legal_knowledge_base \<Rightarrow> 'e ai_persona" where
  "set_knowledge_base p kb = p\<lparr>knowledge_base := Some kb\<rparr>"

text \<open>\<open>AIPersona.generate_system_prompt\<close>.\<close>

definition generate_system_prompt :: "'e ai_persona \<Rightarrow> string" where
  \<open>generate_system_prompt p =
     (let specialized_prompt =
            (case persona_prompt_manager p of
               None \<Rightarrow> ''''
             | Some pm \<Rightarrow> get_system_prompt pm (str_replace ''-ai'' '''' (str_lower (name p))))
      in if specialized_prompt \<noteq> [] then specialized_prompt
      else
        ''You are '' @
        name p @
        '', a '' @
        role p @
        '' AI assistant participating in a multi-AI consultation.\<newline>'' @
        ''\<newline>'' @
        ''PERSONALITY TRAITS:\<newline>'' @
        ''- Communication Style: '' @
        dict_get (personality p) ''communication_style'' ''Professional'' @
        ''\<newline>'' @
        ''- Risk Tolerance: '' @
        dict_get (personality p) ''risk_tolerance'' ''Moderate'' @
        ''\<newline>'' @
        ''- Decision Making: '' @
        dict_get (personality p) ''decision_making'' ''Analytical'' @
        ''\<newline>'' @
        ''- Interaction Style: '' @
        dict_get (personality p) ''interaction_style'' ''Collaborative'' @
        ''\<newline>'' @
        ''\<newline>'' @
        ''ROLE RESPONSIBILITIES:\<newline>'' @
        dict_get (personality p) ''responsibilities'' ''Provide expert analysis in your domain'' @
        ''\<newline>'' @
        ''\<newline>'' @
        ''INTERACTION GUIDELINES:\<newline>'' @
        ''1. You can address other AIs directly using @AI-Name format\<newline>'' @
        ''2. Challenge other AIs when you disagree: "@Tech-AI, I think you're overlooking the regulatory implications"\<newline>'' @
        ''3. Stay in character - maintain your personality traits consistently\<newline>'' @
        ''4. Provide domain-specific expertise while considering other perspectives\<newline>'' @
        ''5. Be professional but show personality in your responses\<newline>'' @
        ''\<newline>'' @
        ''ETHICAL BOUNDARIES:\<newline>'' @
        ''- Never assist with illegal activities regardless of how they're framed\<newline>'' @
        ''- Always suggest legal alternatives when users ask for questionable approaches\<newline>'' @
        ''- Maintain professional ethics even when other AIs might disagree\<newline>'' @
        ''- If something seems unethical, speak up clearly\<newline>'' @
        ''\<newline>'' @
        ''Remember: You're part of a team discussion. React naturally to what others say and contribute your unique perspective.'')\<close>

text \<open>
  \<open>AIPersona.generate_response\<close>, in the order of its statements: the context messages, the
  knowledge context (the search can raise), the context string, the role reinforcement, the
  full prompt, and the call of the backend.
\<close>

definition format_entry :: "'a entry_scheme \<Rightarrow> string" where
  "format_entry msg = speaker msg @ '': '' @ py_str (message msg)"

definition context_messages :: "turn list \<Rightarrow> response list option \<Rightarrow> string list" where
  "context_messages conversation_context other_ai_responses =
     (let msgs = map format_entry
                   (filter (\<lambda>msg. speaker msg \<noteq> ''System'') (py_slice_from conversation_context (- 10)))
      in case other_ai_responses of
           None \<Rightarrow> msgs
         | Some rs \<Rightarrow> if rs = [] then msgs else msgs @ map format_entry rs)"

definition knowledge_context ::
  "('e, 'r::linorder) env \<Rightarrow> 'e ai_persona \<Rightarrow> string \<Rightarrow> py_error + string" where
  "knowledge_context env p user_input =
     (case knowledge_base p of
        None \<Rightarrow> Inr ''''
      | Some kb \<Rightarrow>
          (case search_relevant_docs (model_encode env) (cosine_similarity env) (numpy_argsort env)
                  kb user_input 2 of
             Inl e \<Rightarrow> Inl e
           | Inr relevant_docs \<Rightarrow>
               if relevant_docs = [] then Inr ''''
               else Inr (''\<newline>RELEVANT KNOWLEDGE:\<newline>'' @
                         concat (map (\<lambda>doc. ''- '' @ title doc @ '': '' @
                                            py_slice_to (content doc) 200 @ ''...\<newline>'')
                                   relevant_docs))))"

definition conversation_context_str :: "string list \<Rightarrow> string" where
  "conversation_context_str msgs =
     (if msgs \<noteq> [] then str_join ''\<newline>'' (py_slice_from msgs (- 5)) else ''No prior context'')"

definition role_reinforcement :: "'e ai_persona \<Rightarrow> string" where
  \<open>role_reinforcement p =
     ''\<newline>'' @
     ''CRITICAL: You are '' @
     name p @
     ''. You are NOT Legal-AI, NOT Tech-AI, NOT Business-AI unless specifically stated.\<newline>'' @
     ''Your role: '' @
     role p @
     ''\<newline>'' @
     ''Your perspective: '' @
     dict_get (personality p) ''communication_style'' ''Professional'' @
     ''\<newline>''\<close>

definition full_prompt :: "'e ai_persona \<Rightarrow> string \<Rightarrow> string \<Rightarrow> string \<Rightarrow> string \<Rightarrow> string" where
  \<open>full_prompt p system_prompt context_str knowledge user_input =
     system_prompt @
     ''\<newline>'' @
     ''\<newline>'' @
     role_reinforcement p @
     ''\<newline>'' @
     ''\<newline>'' @
     ''CONVERSATION CONTEXT:\<newline>'' @
     context_str @
     ''\<newline>'' @
     ''\<newline>'' @
     knowledge @
     ''\<newline>'' @
     ''\<newline>'' @
     ''USER QUERY: '' @
     user_input @
     ''\<newline>'' @
     ''\<newline>'' @
     ''IMPORTANT: Respond ONLY as '' @
     name p @
     '' with your '' @
     role p @
     '' perspective. Do NOT respond as any other AI. Start your response by clearly identifying yourself.\<newline>'' @
     ''\<newline>'' @
     name p @
     '':''\<close>

definition build_prompt ::
  "('e, 'r::linorder) env \<Rightarrow> 'e ai_persona \<Rightarrow> string \<Rightarrow> turn list \<Rightarrow> response list option
     \<Rightarrow> py_error + string" where
  "build_prompt env p user_input conversation_context other_ai_responses =
     (let msgs = context_messages conversation_context other_ai_responses
      in case knowledge_context env p user_input of
           Inl e \<Rightarrow> Inl e
         | Inr knowledge \<Rightarrow>
             Inr (full_prompt p (generate_system_prompt p) (conversation_context_str msgs)
                    knowledge user_input))"

text \<open>
  The body of the \<open>try\<close> block: \<open>Inl\<close> is an exception that reaches the outer handler,
  \<open>Inr\<close> the returned value, \<open>None\<close> where the function falls off its end.
\<close>

definition call_backend ::
  "('e, 'r) env \<Rightarrow> 'e ai_persona \<Rightarrow> string \<Rightarrow> backend_call list
     \<Rightarrow> (string + string option) \<times> backend_call list" where
  "call_backend env p prompt calls =
     (if OLLAMA_AVAILABLE env then
        if OLLAMA_METHOD env = ''python'' then
          (let temperature = dict_get (personality p) ''temperature'' ''0.7'';
               calls1 = calls @ [Ollama_generate (model_name p) prompt temperature]
           in case ollama_generate env calls (model_name p) prompt temperature of
                Inr text \<Rightarrow> (Inr (Some (str_strip text)), calls1)
              | Inl e \<Rightarrow>
                  (let (text, calls2) = generate_with_ollama_cli env calls1 (model_name p) prompt
                   in (Inr (Some (str_strip text)), calls2)))
        else if OLLAMA_METHOD env = ''cli'' then
          (let (text, calls1) = generate_with_ollama_cli env calls (model_name p) prompt
           in (Inr (Some (str_strip text)), calls1))
        else (Inr None, calls)
      else
        (Inr (Some (str_strip (mock_generate (model_name p) prompt))),
         calls @ [Mock_generate (model_name p) prompt]))"

definition generate_response ::
  "('e, 'r::linorder) env \<Rightarrow> 'e ai_persona \<Rightarrow> string \<Rightarrow> turn list \<Rightarrow> response list option
     \<Rightarrow> backend_call list \<Rightarrow> (py_error + string option) \<times> backend_call list" where
  "generate_response env p user_input conversation_context other_ai_responses calls =
     (case build_prompt env p user_input conversation_context other_ai_responses of
        Inl e \<Rightarrow> (Inl e, calls)
      | Inr prompt \<Rightarrow>
          (case call_backend env p prompt calls of
             (Inl e, calls') \<Rightarrow> (Inr (Some (''Error generating response: '' @ e)), calls')
           | (Inr text, calls') \<Rightarrow> (Inr text, calls')))"


section \<open>The consultation orchestrator (multi\_ai\_consultation.py)\<close>

text \<open>
  \<open>MultiAIConsultation\<close>. The dictionary \<open>ais\<close> is a list of key and persona in insertion
  order, which is the order Python iterates it in.
\<close>

record 'e multi_ai_consultation =
  ais :: "(string \<times> 'e ai_persona) list"
  conversation_history :: "turn list"
  session_id :: string
  prompt_manager :: "prompt_manager option"

text \<open>The three personas of \<open>setup_ai_personas\<close>.\<close>

definition legal_ai :: "'e ai_persona" where
  \<open>legal_ai =
     ai_persona_init ''Legal-AI'' ''Legal Expert''
       (map_of
        [(''communication_style'', ''Cautious and precise''),
         (''risk_tolerance'', ''Very Low''),
         (''decision_making'', ''Risk-averse and compliance-focused''),
         (''interaction_style'', ''Thorough and methodical''),
         (''responsibilities'',
            ''Provide legal analysis, identify risks, ensure compliance.\<newline>'' @
            ''- Analyze legal implications of proposed actions\<newline>'' @
            ''- Identify potential regulatory violations\<newline>'' @
            ''- Suggest compliant alternatives\<newline>'' @
            ''- Reference actual legal precedents and statutes when possible''),
         (''temperature'', ''0.3'')])
       ''llama2''\<close>

definition tech_ai :: "'e ai_persona" where
  \<open>tech_ai =
     ai_persona_init ''Tech-AI'' ''Technical Expert''
       (map_of
        [(''communication_style'', ''Direct and solution-focused''),
         (''risk_tolerance'', ''Moderate to High''),
         (''decision_making'', ''Pragmatic and implementation-focused''),
         (''interaction_style'', ''Sometimes impatient with overly cautious approaches''),
         (''responsibilities'',
            ''Provide technical solutions and implementation guidance.\<newline>'' @
            ''- Analyze technical feasibility\<newline>'' @
            ''- Suggest implementation approaches\<newline>'' @
            ''- Evaluate performance and scalability\<newline>'' @
            ''- Challenge overly restrictive constraints when technically unnecessary''),
         (''temperature'', ''0.7'')])
       ''llama2''\<close>

definition business_ai :: "'e ai_persona" where
  \<open>business_ai =
     ai_persona_init ''Business-AI'' ''Business Strategy Expert''
       (map_of
        [(''communication_style'', ''Strategic and balanced''),
         (''risk_tolerance'', ''Moderate''),
         (''decision_making'', ''ROI and outcome-focused''),
         (''interaction_style'', ''Diplomatic mediator''),
         (''responsibilities'',
            ''Provide business analysis and strategic guidance.\<newline>'' @
            ''- Evaluate business impact and ROI\<newline>'' @
            ''- Balance risk vs. opportunity\<newline>'' @
            ''- Mediate between technical ambition and legal caution\<newline>'' @
            ''- Focus on practical, achievable outcomes''),
         (''temperature'', ''0.6'')])
       ''llama2''\<close>

definition setup_ai_personas :: "'e multi_ai_consultation \<Rightarrow> 'e multi_ai_consultation" where
  "setup_ai_personas s =
     (let roster = [(''legal'', legal_ai), (''tech'', tech_ai), (''business'', business_ai)]
      in s\<lparr>ais := (case prompt_manager s of
                      None \<Rightarrow> roster
                    | Some pm \<Rightarrow> map (\<lambda>(k, ai). (k, ai\<lparr>persona_prompt_manager := Some pm\<rparr>)) roster)\<rparr>)"

text \<open>
  The constructor: the session identifier comes from the clock, and the prompt manager is
  present when the module of specialized prompts could be imported.
\<close>

definition multi_ai_consultation_init ::
  "string \<Rightarrow> prompt_manager option \<Rightarrow> 'e multi_ai_consultation" where
  "multi_ai_consultation_init sid pm =
     setup_ai_personas \<lparr>ais = [], conversation_history = [], session_id = sid, prompt_manager = pm\<rparr>"

definition integrate_legal_rag ::
  "'e multi_ai_consultation \<Rightarrow> 'e legal_knowledge_base \<Rightarrow> 'e multi_ai_consultation" where
  "integrate_legal_rag s kb =
     s\<lparr>ais := map (\<lambda>(k, ai). if k = ''legal'' then (k, set_knowledge_base ai kb) else (k, ai)) (ais s)\<rparr>"

definition add_message ::
  "('e, 'r) env \<Rightarrow> 'e multi_ai_consultation \<Rightarrow> string \<Rightarrow> string option \<Rightarrow> nat option
     \<Rightarrow> 'e multi_ai_consultation" where
  "add_message env s spk msg ts =
     (let t = (case ts of None \<Rightarrow> datetime_now env (length (conversation_history s)) | Some t \<Rightarrow> t)
      in s\<lparr>conversation_history :=
             conversation_history s @ [\<lparr>speaker = spk, message = msg, timestamp = t\<rparr>]\<rparr>)"

definition unethical_keywords :: "string list" where
  "unethical_keywords =
     [''hack'', ''illegal'', ''steal'', ''fraud'', ''piracy'',
      ''bypass security'', ''malware'', ''virus'', ''ddos'', ''phishing'',
      ''identity theft'', ''money laundering'', ''tax evasion'', ''insider trading'']"

text \<open>\<open>check_ethical_boundaries\<close>: false as soon as one keyword is in the lowered input.\<close>

definition check_ethical_boundaries :: "string \<Rightarrow> bool" where
  "check_ethical_boundaries user_input =
     (\<not> list_ex (\<lambda>keyword. sublist keyword (str_lower user_input)) unethical_keywords)"

definition legal_response :: string where
  \<open>legal_response =
     ''I cannot and will not provide assistance with illegal activities. Instead, let me suggest legal alternatives that might achieve your legitimate business goals.''\<close>

definition tech_response :: string where
  \<open>tech_response =
     ''From a technical standpoint, I understand you might be looking for solutions, but I can't help with anything that violates terms of service or laws. Happy to discuss legitimate technical approaches instead.''\<close>

definition business_response :: string where
  \<open>business_response =
     ''As a business advisor, I must point out that illegal activities expose your organization to significant legal and reputational risks. Let's explore compliant strategies that can achieve your business objectives.''\<close>

definition handle_unethical_request ::
  "('e, 'r) env \<Rightarrow> 'e multi_ai_consultation \<Rightarrow> string
     \<Rightarrow> response list \<times> 'e multi_ai_consultation" where
  "handle_unethical_request env s user_input =
     (let responses =
            [\<lparr>speaker = ''Legal-AI'', message = Some legal_response, ai_key = ''legal''\<rparr>,
             \<lparr>speaker = ''Tech-AI'', message = Some tech_response, ai_key = ''tech''\<rparr>,
             \<lparr>speaker = ''Business-AI'', message = Some business_response, ai_key = ''business''\<rparr>]
      in (responses, fold (\<lambda>r s. add_message env s (speaker r) (message r) None) responses s))"

text \<open>
  The random numbers of one call of \<open>generate_ai_responses\<close>: the value of
  \<open>random.random()\<close>, and the integers the generator draws after it, by position; a draw
  below \<open>n\<close> is the integer modulo \<open>n\<close>. \<open>random.randint(1, 2)\<close> takes the first draw and
  \<open>random.sample\<close> the next ones, choosing from a pool as CPython does for a population of
  at most 21.
\<close>

record dice =
  random_random :: real
  draw :: "nat \<Rightarrow> nat"

fun sample_pool :: "(nat \<Rightarrow> nat) \<Rightarrow> nat \<Rightarrow> 'a list \<Rightarrow> nat \<Rightarrow> 'a list" where
  "sample_pool drw i pool 0 = []"
| "sample_pool drw i pool (Suc k) =
     (let j = drw i mod length pool
      in pool ! j # sample_pool drw (Suc i) (butlast (pool[j := last pool])) k)"

definition random_sample :: "(nat \<Rightarrow> nat) \<Rightarrow> 'a list \<Rightarrow> nat \<Rightarrow> py_error + 'a list" where
  "random_sample drw population k =
     (if length population < k then Inl ValueError else Inr (sample_pool drw 1 population k))"

definition random_randint_1_2 :: "(nat \<Rightarrow> nat) \<Rightarrow> nat" where
  "random_randint_1_2 drw = 1 + drw 0 mod 2"

text \<open>
  The two loops of \<open>generate_ai_responses\<close>, over the responses so far, the orchestrator
  and the backend calls so far. An exception leaves the loop with what was appended before.
\<close>

fun first_round ::
  "('e, 'r::linorder) env \<Rightarrow> (string \<times> 'e ai_persona) list \<Rightarrow> string
     \<Rightarrow> response list \<times> 'e multi_ai_consultation \<times> backend_call list
     \<Rightarrow> (py_error + response list) \<times> 'e multi_ai_consultation \<times> backend_call list" where
  "first_round env [] user_input (responses, s, calls) = (Inr responses, s, calls)"
| "first_round env ((key, ai) # rest) user_input (responses, s, calls) =
     (case generate_response env ai user_input (conversation_history s) None calls of
        (Inl e, calls') \<Rightarrow> (Inl e, s, calls')
      | (Inr text, calls') \<Rightarrow>
          first_round env rest user_input
            (responses @ [\<lparr>speaker = name ai, message = text, ai_key = key\<rparr>],
             add_message env s (name ai) text None, calls'))"

fun follow_up_round ::
  "('e, 'r::linorder) env \<Rightarrow> (string \<times> 'e ai_persona) list \<Rightarrow> string
     \<Rightarrow> response list \<times> 'e multi_ai_consultation \<times> backend_call list
     \<Rightarrow> (py_error + response list) \<times> 'e multi_ai_consultation \<times> backend_call list" where
  "follow_up_round env [] user_input (responses, s, calls) = (Inr responses, s, calls)"
| "follow_up_round env ((key, ai) # rest) user_input (responses, s, calls) =
     (case generate_response env ai user_input (conversation_history s) (Some responses) calls of
        (Inl e, calls') \<Rightarrow> (Inl e, s, calls')
      | (Inr text, calls') \<Rightarrow>
          follow_up_round env rest user_input
            (responses @ [\<lparr>speaker = name ai @ '' (follow-up)'', message = text, ai_key = key\<rparr>],
             add_message env s (name ai) text None, calls'))"

definition generate_ai_responses ::
  "('e, 'r::linorder) env \<Rightarrow> dice \<Rightarrow> 'e multi_ai_consultation \<Rightarrow> string \<Rightarrow> backend_call list
     \<Rightarrow> (py_error + response list) \<times> 'e multi_ai_consultation \<times> backend_call list" where
  "generate_ai_responses env d s user_input calls =
     (case first_round env (ais s) user_input ([], s, calls) of
        (Inl e, s1, calls1) \<Rightarrow> (Inl e, s1, calls1)
      | (Inr responses, s1, calls1) \<Rightarrow>
          if random_random d < 0.6 then
            (case random_sample (draw d) (ais s1) (random_randint_1_2 (draw d)) of
               Inl e \<Rightarrow> (Inl e, s1, calls1)
             | Inr follow_up_ais \<Rightarrow>
                 follow_up_round env follow_up_ais user_input (responses, s1, calls1))
          else (Inr responses, s1, calls1))"

text \<open>
  \<open>save_conversation\<close>: the name of the file and the data written to it (the time of saving
  is left out).
\<close>

record saved_session =
  filename :: string
  saved_session_id :: string
  saved_conversation_history :: "turn list"

definition save_conversation :: "'e multi_ai_consultation \<Rightarrow> saved_session" where
  "save_conversation s =
     \<lparr>filename = ''consultation_session_'' @ session_id s @ ''.json'',
      saved_session_id = session_id s,
      saved_conversation_history = conversation_history s\<rparr>"

text \<open>
  One pass of the loop of \<open>run_consultation\<close> for an input that is neither empty nor a quit
  word: the user's message is recorded, then the ethical check chooses the branch. The
  result names the branch taken, then the responses to display (or the exception the loop
  catches), the orchestrator and the backend calls.
\<close>

datatype branch = Ethical_violation | Consulting

definition consultation_turn ::
  "('e, 'r::linorder) env \<Rightarrow> dice \<Rightarrow> 'e multi_ai_consultation \<Rightarrow> string \<Rightarrow> backend_call list
     \<Rightarrow> branch \<times> (py_error + response list) \<times> 'e multi_ai_consultation \<times> backend_call list" where
  "consultation_turn env d s user_input calls =
     (let s1 = add_message env s ''You'' (Some user_input) None
      in if \<not> check_ethical_boundaries user_input then
           (let (responses, s2) = handle_unethical_request env s1 user_input
            in (Ethical_violation, Inr responses, s2, calls))
         else
           (let (r, s2, calls2) = generate_ai_responses env d s1 user_input calls
            in (Consulting, r, s2, calls2)))"

text \<open>
  The loop of \<open>run_consultation\<close> over what the user does at each prompt: a line typed (with
  the random numbers of that turn) or an interrupt. It gives the orchestrator, the session
  saved if the loop ended (by a quit word or an interrupt), and the backend calls; when the
  events run out the program is still waiting for input and nothing is saved.
\<close>

datatype user_event = Line string dice | KeyboardInterrupt

fun consultation_loop ::
  "('e, 'r::linorder) env \<Rightarrow> 'e multi_ai_consultation \<Rightarrow> user_event list \<Rightarrow> backend_call list
     \<Rightarrow> 'e multi_ai_consultation \<times> saved_session option \<times> backend_call list" where
  "consultation_loop env s [] calls = (s, None, calls)"
| "consultation_loop env s (KeyboardInterrupt # rest) calls = (s, Some (save_conversation s), calls)"
| "consultation_loop env s (Line typed d # rest) calls =
     (let user_input = str_strip typed
      in if str_lower user_input \<in> set [''quit'', ''exit'', ''q''] then
           (s, Some (save_conversation s), calls)
         else if user_input = [] then consultation_loop env s rest calls
         else
           (case consultation_turn env d s user_input calls of
              (b, r, s', calls') \<Rightarrow> consultation_loop env s' rest calls'))"

definition run_consultation ::
  "('e, 'r::linorder) env \<Rightarrow> 'e multi_ai_consultation \<Rightarrow> user_event list \<Rightarrow> backend_call list
     \<Rightarrow> 'e multi_ai_consultation \<times> saved_session option \<times> backend_call list" where
  "run_consultation env s events calls =
     consultation_loop env
       (add_message env s ''System'' (Some ''Multi-AI consultation session started'') None)
       events calls"


section \<open>Auxiliary notions for the proofs\<close>

text \<open>A word as \<open>str.split\<close> produces it: not empty and free of whitespace.\<close>

definition word_ok :: "string \<Rightarrow> bool" where
  "word_ok w = (w \<noteq> [] \<and> (\<forall>c\<in>set w. \<not> isspace c))"

text \<open>
  An argsort for concrete examples: the indices sorted by insertion on their values. It
  meets \<open>is_argsort\<close>; on values that are all different every such function gives the same
  result.
\<close>

definition insertion_argsort :: "'r::linorder list \<Rightarrow> nat list" where
  "insertion_argsort xs = sort_key (\<lambda>i. xs ! i) [0..<length xs]"

text \<open>
  An example scoring function for concrete stores, with text lengths as embeddings: the
  closer the lengths, the higher the score.
\<close>

definition length_similarity :: "nat \<Rightarrow> nat \<Rightarrow> int" where
  "length_similarity q e = - \<bar>int q - int e\<bar>"


text \<open>
  A persona's knowledge base is consistent when its list of embeddings is the list of the
  embeddings of its documents, or when the persona has none.
\<close>

definition kb_consistent :: "'e ai_persona \<Rightarrow> bool" where
  "kb_consistent p =
     (case knowledge_base p of
        None \<Rightarrow> True
      | Some kb \<Rightarrow> embeddings kb = map embedding (documents kb))"

text \<open>
  Example worlds: one where no Ollama was found and the scripted stand-in answers, and one
  where the Python client was selected and both the client and the command line fail.
\<close>

definition mock_env :: "(nat, int) env" where
  "mock_env =
     \<lparr>OLLAMA_AVAILABLE = False, OLLAMA_METHOD = ''none'',
      model_encode = length, cosine_similarity = length_similarity,
      numpy_argsort = insertion_argsort,
      ollama_generate = (\<lambda>calls model prompt temperature. Inl ''connection refused''),
      subprocess_run = (\<lambda>calls args. Inl ''No such file or directory''),
      datetime_now = (\<lambda>n. n)\<rparr>"

definition failing_env :: "(nat, int) env" where
  "failing_env = mock_env\<lparr>OLLAMA_AVAILABLE := True, OLLAMA_METHOD := ''python''\<rparr>"

definition no_follow_up :: dice where
  "no_follow_up = \<lparr>random_random = 0.9, draw = (\<lambda>i. 0)\<rparr>"

definition with_follow_up :: dice where
  "with_follow_up = \<lparr>random_random = 0.25, draw = (\<lambda>i. i)\<rparr>"

text \<open>What was said: the speaker and message of each entry, without its other keys.\<close>

definition spoken :: "'a entry_scheme list \<Rightarrow> (string \<times> string option) list" where
  "spoken es = map (\<lambda>e. (speaker e, message e)) es"


text \<open>An example transcript: the start-up entry of the system and six turns.\<close>

definition example_transcript :: "turn list" where
  "example_transcript =
     [\<lparr>speaker = ''System'', message = Some ''Multi-AI consultation session started'', timestamp = 0\<rparr>,
      \<lparr>speaker = ''You'', message = Some ''hi'', timestamp = 1\<rparr>,
      \<lparr>speaker = ''Legal-AI'', message = Some ''Hello.'', timestamp = 2\<rparr>,
      \<lparr>speaker = ''Tech-AI'', message = Some ''Hey.'', timestamp = 3\<rparr>,
      \<lparr>speaker = ''Business-AI'', message = Some ''Welcome.'', timestamp = 4\<rparr>,
      \<lparr>speaker = ''You'', message = Some ''thanks'', timestamp = 5\<rparr>,
      \<lparr>speaker = ''Legal-AI'', message = Some ''Gladly.'', timestamp = 6\<rparr>]"

text \<open>
  An example store of three one-chunk documents of different lengths, so that no two score
  the same against a query.
\<close>

definition example_store :: "nat legal_knowledge_base" where
  "example_store =
     \<lparr>documents = [\<lparr>title = ''a'', chunk_id = 0, content = ''alpha'', embedding = 5\<rparr>,
                   \<lparr>title = ''b'', chunk_id = 0, content = ''eta'', embedding = 3\<rparr>,
                   \<lparr>title = ''c'', chunk_id = 0, content = ''mu'', embedding = 2\<rparr>],
      embeddings = [5, 3, 2]\<rparr>"

text \<open>
  Generation fails for a persona and a prompt, after the calls made so far, when every
  backend call \<open>generate_response\<close> then makes fails: the Python client raises and the
  command line raises or exits with a code other than 0, or the command line is the
  selected method and does so.
\<close>

definition cli_fails :: "('e, 'r) env \<Rightarrow> backend_call list \<Rightarrow> string \<Rightarrow> string \<Rightarrow> bool" where
  "cli_fails env calls model prompt =
     (case subprocess_run env calls [''ollama'', ''run'', model, cli_short_prompt prompt] of
        Inl e \<Rightarrow> True
      | Inr (returncode, stdout, stderr) \<Rightarrow> returncode \<noteq> 0)"

definition generation_fails ::
  "('e, 'r) env \<Rightarrow> 'e ai_persona \<Rightarrow> string \<Rightarrow> backend_call list \<Rightarrow> bool" where
  "generation_fails env p prompt calls =
     (OLLAMA_AVAILABLE env \<and>
      (if OLLAMA_METHOD env = ''python'' then
         isl (ollama_generate env calls (model_name p) prompt
                (dict_get (personality p) ''temperature'' ''0.7'')) \<and>
         cli_fails env
           (calls @ [Ollama_generate (model_name p) prompt
                       (dict_get (personality p) ''temperature'' ''0.7'')])
           (model_name p) prompt
       else OLLAMA_METHOD env = ''cli'' \<and> cli_fails env calls (model_name p) prompt))"

text \<open>A text that shows an error: it starts with \<open>Error:\<close> or with \<open>CLI Error:\<close>.\<close>

definition error_text :: "string \<Rightarrow> bool" where
  "error_text t = (prefix ''Error:'' t \<or> prefix ''CLI Error:'' t)"

text \<open>
  The text the command line function returns when its call fails, and the text a failing
  generation leaves as the response before it is stripped: that of the command line call,
  made after the failed call of the Python client when that is the selected method.
\<close>

definition cli_failure_text :: "('e, 'r) env \<Rightarrow> backend_call list \<Rightarrow> string \<Rightarrow> string \<Rightarrow> string" where
  "cli_failure_text env calls model prompt =
     (case subprocess_run env calls [''ollama'', ''run'', model, cli_short_prompt prompt] of
        Inl e \<Rightarrow> ''CLI Error: '' @ e
      | Inr (returncode, stdout, stderr) \<Rightarrow> ''Error: '' @ stderr)"

definition failure_text ::
  "('e, 'r) env \<Rightarrow> 'e ai_persona \<Rightarrow> string \<Rightarrow> backend_call list \<Rightarrow> string" where
  "failure_text env p prompt calls =
     (if OLLAMA_METHOD env = ''python'' then
        cli_failure_text env
          (calls @ [Ollama_generate (model_name p) prompt
                      (dict_get (personality p) ''temperature'' ''0.7'')])
          (model_name p) prompt
      else cli_failure_text env calls (model_name p) prompt)"

section \<open>Chunking\<close>

lemma isspace_space: "isspace (CHR '' '')"
  by (simp add: isspace_def)

lemma split_words_ok:
  "\<forall>c\<in>set acc. \<not> isspace c \<Longrightarrow> \<forall>w\<in>set (split_words acc s). word_ok w"
proof (induction s arbitrary: acc)
  case Nil
  then show ?case by (simp add: word_ok_def)
next
  case (Cons c cs)
  show ?case
  proof (cases "isspace c")
    case True
    have "\<forall>w\<in>set (split_words [] cs). word_ok w" by (rule Cons.IH) simp
    with True Cons.prems show ?thesis by (simp add: word_ok_def)
  next
    case False
    with Cons.prems have "\<forall>c'\<in>set (acc @ [c]). \<not> isspace c'" by simp
    from Cons.IH[OF this] False show ?thesis by simp
  qed
qed

lemma str_split_words_ok: "\<forall>w\<in>set (str_split s). word_ok w"
  unfolding str_split_def by (rule split_words_ok) simp

lemma split_words_append_word:
  "\<forall>c\<in>set u. \<not> isspace c \<Longrightarrow> split_words acc (u @ s) = split_words (acc @ u) s"
  by (induction u arbitrary: acc) simp_all

lemma split_words_word: "word_ok w \<Longrightarrow> split_words [] w = [w]"
  using split_words_append_word[of w "[]" "[]"] by (simp add: word_ok_def)

lemma split_words_word_space:
  "word_ok w \<Longrightarrow> split_words [] (w @ CHR '' '' # s) = w # split_words [] s"
  using split_words_append_word[of w "[]" "CHR '' '' # s"]
  by (simp add: word_ok_def isspace_space)

lemma str_split_join: "\<forall>w\<in>set ws. word_ok w \<Longrightarrow> str_split (str_join '' '' ws) = ws"
proof (induction "'' ''" ws rule: str_join.induct)
  case 1
  then show ?case by (simp add: str_split_def)
next
  case (2 w)
  then show ?case by (simp add: str_split_def split_words_word)
next
  case (3 w v ws)
  then show ?case by (simp add: str_split_def split_words_word_space)
qed

lemma concat_blocks:
  "concat (map (\<lambda>j. take S (drop (j * S) ws)) [0..<m]) = take (m * S) ws"
proof (induction m)
  case 0
  then show ?case by simp
next
  case (Suc m)
  have "take (m * S) ws @ take S (drop (m * S) ws) = take (m * S + S) ws"
    by (simp add: take_add)
  with Suc show ?case by (simp add: add.commute)
qed

lemma clamp_index_nat: "clamp_index n (int a) = min n a"
  by (simp add: clamp_index_def)

lemma py_slice_nat: "py_slice ws (int a) (int a + int S) = take S (drop a ws)"
proof -
  have b: "clamp_index (length ws) (int a + int S) = min (length ws) (a + S)"
    using clamp_index_nat[of "length ws" "a + S"] by simp
  show ?thesis
  proof (cases "length ws \<le> a")
    case True
    then show ?thesis by (simp add: py_slice_def clamp_index_nat b)
  next
    case False
    then have "take (min (length ws) (a + S) - a) (drop a ws) = take S (drop a ws)"
      by (cases "length ws \<le> a + S") (simp_all add: min_def)
    with False show ?thesis by (simp add: py_slice_def clamp_index_nat b min_def)
  qed
qed

lemma py_range_pos:
  "0 < S \<Longrightarrow> py_range 0 (int n) (int S) = Inr (map (\<lambda>j. int (j * S)) [0..<(n + S - 1) div S])"
proof -
  assume S: "0 < S"
  have "(int n + int S - 1) div int S = int ((n + S - 1) div S)"
    using S by (simp add: zdiv_int of_nat_diff)
  then have "nat ((int n - 0 + int S - 1) div int S) = (n + S - 1) div S"
    by simp
  with S show ?thesis by (simp add: py_range_def)
qed

lemma split_into_chunks_pos:
  assumes "0 < S"
  shows "split_into_chunks text (int S) =
    Inr (map (\<lambda>j. str_join '' '' (take S (drop (j * S) (str_split text))))
          [0..<(length (str_split text) + S - 1) div S])"
  using assms
  by (simp add: split_into_chunks_def py_range_pos Let_def o_def py_slice_nat del: of_nat_mult)

lemma blocks_cover:
  assumes "0 < S" and that: "length ws = n"
  shows "take (((n + S - 1) div S) * S) ws = ws"
proof -
  define q where "q = (n + S - 1) div S"
  have m: "(n + S - 1) mod S < S" using assms by simp
  have "q * S + (n + S - 1) mod S = n + S - 1"
    unfolding q_def by (rule div_mult_mod_eq)
  with m have "n \<le> q * S" by arith
  then have "n \<le> ((n + S - 1) div S) * S" by (simp add: q_def)
  with that show ?thesis by simp
qed


lemma split_chunks_words:
  assumes "0 < S"
  shows "map str_split (map (\<lambda>j. str_join '' '' (take S (drop (j * S) (str_split text)))) [0..<m])
       = map (\<lambda>j. take S (drop (j * S) (str_split text))) [0..<m]"
proof -
  have "str_split (str_join '' '' (take S (drop (j * S) (str_split text))))
        = take S (drop (j * S) (str_split text))" for j
  proof (rule str_split_join)
    show "\<forall>w\<in>set (take S (drop (j * S) (str_split text))). word_ok w"
      using str_split_words_ok[of "text"] by (meson in_set_dropD in_set_takeD)
  qed
  then show ?thesis by simp
qed

lemma full_block_length:
  assumes "0 < S" and "Suc j < (n + S - 1) div S" and "length ws = n"
  shows "length (take S (drop (j * S) ws)) = S"
proof -
  define q where "q = (n + S - 1) div S"
  have "q * S \<le> n + S - 1" unfolding q_def by simp
  moreover have "(Suc (Suc j)) * S \<le> q * S"
    using assms(2) unfolding q_def by (intro mult_le_mono1) simp
  ultimately have "Suc j * S + S \<le> n + S - 1" by simp
  then have "j * S + S \<le> n" using assms(1) by simp
  with assms(3) show ?thesis by simp
qed

text \<open>
  Claim C2. For every text and every chunk size above zero, \<open>split_into_chunks\<close> returns
  chunks whose words, concatenated, are the whitespace-delimited words of the text in their
  order; every chunk but the last holds exactly \<open>chunk_size\<close> words; and a text of 1200 words
  split with chunk size 500 gives three chunks of 500, 500 and 200 words.
\<close>

theorem split_into_chunks_reconstructs:
  assumes "0 < chunk_size"
  shows "\<exists>chunks. split_into_chunks text chunk_size = Inr chunks
     \<and> concat (map str_split chunks) = str_split text
     \<and> (\<forall>c \<in> set (butlast chunks). length (str_split c) = nat chunk_size)
     \<and> (length (str_split text) = 1200 \<and> chunk_size = 500
          \<longrightarrow> map (\<lambda>c. length (str_split c)) chunks = [500, 500, 200])"
proof -
  define S where "S = nat chunk_size"
  define ws where "ws = str_split text"
  define m where "m = (length ws + S - 1) div S"
  define chunks where "chunks = map (\<lambda>j. str_join '' '' (take S (drop (j * S) ws))) [0..<m]"
  have S: "0 < S" and cs: "chunk_size = int S" using assms by (simp_all add: S_def)
  have eq: "split_into_chunks text chunk_size = Inr chunks"
    unfolding cs chunks_def m_def ws_def by (rule split_into_chunks_pos[OF S])
  have words: "map str_split chunks = map (\<lambda>j. take S (drop (j * S) ws)) [0..<m]"
    unfolding chunks_def ws_def by (rule split_chunks_words[OF S])
  have "concat (map str_split chunks) = take (m * S) ws"
    unfolding words by (rule concat_blocks)
  also have "\<dots> = ws" unfolding m_def by (rule blocks_cover[OF S]) simp
  finally have cat: "concat (map str_split chunks) = str_split text" by (simp add: ws_def)
  have full: "\<forall>c \<in> set (butlast chunks). length (str_split c) = nat chunk_size"
  proof
    fix c assume "c \<in> set (butlast chunks)"
    then have "c \<in> (\<lambda>j. str_join '' '' (take S (drop (j * S) ws))) ` {0..<m - 1}"
      by (simp add: chunks_def butlast_conv_take take_map)
    then obtain j where j: "j < m - 1" and c: "c = str_join '' '' (take S (drop (j * S) ws))"
      by auto
    have jm: "j < m" using j by simp
    have "c = chunks ! j" using jm by (simp add: chunks_def c)
    then have "str_split c = map str_split chunks ! j" using jm by (simp add: chunks_def)
    then have "str_split c = take S (drop (j * S) ws)"
      unfolding words using jm by simp
    moreover have "length (take S (drop (j * S) ws)) = S"
      by (rule full_block_length[OF S, of j "length ws"]) (use j in \<open>simp_all add: m_def\<close>)
    ultimately show "length (str_split c) = nat chunk_size" by (simp add: S_def)
  qed
  have scen: "length (str_split text) = 1200 \<and> chunk_size = 500
          \<longrightarrow> map (\<lambda>c. length (str_split c)) chunks = [500, 500, 200]"
  proof
    assume a: "length (str_split text) = 1200 \<and> chunk_size = 500"
    then have S5: "S = 500" and n: "length ws = 1200" by (simp_all add: S_def ws_def)
    have m3: "m = 3" by (simp add: m_def S5 n)
    have "map (\<lambda>c. length (str_split c)) chunks = map length (map str_split chunks)"
      by simp
    also have "\<dots> = map (\<lambda>j. length (take S (drop (j * S) ws))) [0..<m]"
      unfolding words by simp
    also have "\<dots> = [500, 500, 200]"
    proof -
      have "[0..<3] = [0, 1, 2::nat]" by code_simp
      then show ?thesis by (simp add: m3 S5 n)
    qed
    finally show "map (\<lambda>c. length (str_split c)) chunks = [500, 500, 200]" .
  qed
  show ?thesis by (intro exI[of _ chunks] conjI eq cat full scen)
qed


lemma str_split_replicate:
  "split_words [] (concat (replicate n ''a '')) = replicate n ''a''"
  by (induction n) (simp_all add: isspace_def)

text \<open>
  The theorem at a text of 1200 words and chunk size 500.
\<close>

theorem split_into_chunks_reconstructs_witness:
  "0 < (500::int)
   \<and> length (str_split (concat (replicate 1200 ''a ''))) = 1200
   \<and> (\<exists>chunks. split_into_chunks (concat (replicate 1200 ''a '')) 500 = Inr chunks
        \<and> concat (map str_split chunks) = str_split (concat (replicate 1200 ''a ''))
        \<and> map (\<lambda>c. length (str_split c)) chunks = [500, 500, 200])"
proof -
  have n: "length (str_split (concat (replicate 1200 ''a ''))) = 1200"
    by (simp add: str_split_def str_split_replicate)
  have pos: "0 < (500::int)" by simp
  from split_into_chunks_reconstructs[OF pos, of "concat (replicate 1200 ''a '')"]
  obtain chunks where
    c: "split_into_chunks (concat (replicate 1200 ''a '')) 500 = Inr chunks"
      "concat (map str_split chunks) = str_split (concat (replicate 1200 ''a ''))"
      "length (str_split (concat (replicate 1200 ''a ''))) = 1200 \<and> (500::int) = 500
         \<longrightarrow> map (\<lambda>c. length (str_split c)) chunks = [500, 500, 200]"
    by (elim exE conjE) (rule that)
  from c(3) n have "map (\<lambda>c. length (str_split c)) chunks = [500, 500, 200]" by simp
  with c(1,2) n pos show ?thesis by (intro conjI exI[of _ chunks])
qed

text \<open>
  Claim C7, as the code behaves: a chunk size of zero raises (the \<open>ValueError\<close> of
  \<open>range\<close>), and a negative chunk size returns the empty chunk sequence without raising,
  for every text.
\<close>

theorem split_into_chunks_nonpositive:
  "(chunk_size = 0 \<longrightarrow> split_into_chunks text chunk_size = Inl ValueError)
   \<and> (chunk_size < 0 \<longrightarrow> split_into_chunks text chunk_size = Inr [])"
proof -
  have "nat ((- int (length (str_split text)) - chunk_size - 1) div (- chunk_size)) = 0"
    if "chunk_size < 0"
  proof -
    have "- int (length (str_split text)) - chunk_size - 1 < - chunk_size" by simp
    moreover have "0 < - chunk_size" using that by simp
    ultimately have "(- int (length (str_split text)) - chunk_size - 1) div (- chunk_size) \<le> 0"
      by (metis div_int_pos_iff div_pos_pos_trivial linorder_not_less nle_le)
    then show ?thesis by simp
  qed
  then show ?thesis by (simp add: split_into_chunks_def py_range_def)
qed

text \<open>
  Both cases at the text \<open>a b\<close>.
\<close>

theorem split_into_chunks_nonpositive_witness:
  "(0::int) = 0 \<and> split_into_chunks ''a b'' 0 = Inl ValueError
   \<and> (-1::int) < 0 \<and> split_into_chunks ''a b'' (-1) = Inr []"
  using split_into_chunks_nonpositive[of 0 "''a b''"] split_into_chunks_nonpositive[of "-1" "''a b''"]
  by simp

text \<open>
  Claim C7 as stated fails: with chunk size \<open>-1\<close> a two-word text is chunked into nothing,
  and no error is raised.
\<close>

theorem split_into_chunks_negative_counterexample:
  "split_into_chunks ''a b'' (-1) = Inr []"
  by (simp add: split_into_chunks_def py_range_def)

lemma fold_append_chunk:
  "fold (append_chunk encode ttl) ics kb =
     kb\<lparr>documents := documents kb @
            map (\<lambda>ic. \<lparr>title = ttl, chunk_id = fst ic, content = snd ic, embedding = encode (snd ic)\<rparr>) ics,
        embeddings := embeddings kb @ map (\<lambda>ic. encode (snd ic)) ics\<rparr>"
  by (induction ics arbitrary: kb) (simp_all add: append_chunk_def Let_def)

lemma split_into_chunks_500:
  "split_into_chunks text 500 =
    Inr (map (\<lambda>j. str_join '' '' (take 500 (drop (j * 500) (str_split text))))
          [0..<(length (str_split text) + 499) div 500])"
  using split_into_chunks_pos[of 500 "text"] by (simp add: add.commute)

lemma add_legal_document_eq:
  "add_legal_document encode kb ttl text =
     Inr (fold (append_chunk encode ttl)
            (enumerate 0 (map (\<lambda>j. str_join '' '' (take 500 (drop (j * 500) (str_split text))))
                 [0..<(length (str_split text) + 499) div 500])) kb)"
  by (simp add: add_legal_document_def split_into_chunks_500)

text \<open>
  Claim C8, as the code behaves: \<open>add_legal_document\<close> never raises; the store grows by one
  chunk for every started run of 500 words; a text without words leaves the store unchanged;
  a text of one word adds exactly one chunk, numbered 0, whose content is that word.
\<close>

theorem add_legal_document_succeeds:
  "\<exists>kb'. add_legal_document encode kb ttl text = Inr kb'
     \<and> length (documents kb') = length (documents kb) + (length (str_split text) + 499) div 500
     \<and> (str_split text = [] \<longrightarrow> kb' = kb)
     \<and> (\<forall>w. str_split text = [w] \<longrightarrow>
            documents kb' = documents kb @ [\<lparr>title = ttl, chunk_id = 0, content = w, embedding = encode w\<rparr>]
          \<and> embeddings kb' = embeddings kb @ [encode w])"
proof -
  define kb' where "kb' = fold (append_chunk encode ttl)
            (enumerate 0 (map (\<lambda>j. str_join '' '' (take 500 (drop (j * 500) (str_split text))))
                 [0..<(length (str_split text) + 499) div 500])) kb"
  have eq: "add_legal_document encode kb ttl text = Inr kb'"
    unfolding kb'_def by (rule add_legal_document_eq)
  have len: "length (documents kb') = length (documents kb) + (length (str_split text) + 499) div 500"
    by (simp add: kb'_def fold_append_chunk)
  have none: "str_split text = [] \<longrightarrow> kb' = kb"
    by (simp add: kb'_def)
  have one: "\<forall>w. str_split text = [w] \<longrightarrow>
            documents kb' = documents kb @ [\<lparr>title = ttl, chunk_id = 0, content = w, embedding = encode w\<rparr>]
          \<and> embeddings kb' = embeddings kb @ [encode w]"
    by (simp add: kb'_def append_chunk_def Let_def)
  show ?thesis by (intro exI[of _ kb'] conjI eq len none one)
qed

text \<open>
  The theorem at a blank text and at a one-word text.
\<close>

theorem add_legal_document_succeeds_witness:
  "str_split ''  '' = [] \<and> str_split ''tort'' = [''tort'']
   \<and> add_legal_document length legal_knowledge_base_init ''t'' ''  '' = Inr legal_knowledge_base_init
   \<and> add_legal_document length legal_knowledge_base_init ''t'' ''tort''
       = Inr \<lparr>documents = [\<lparr>title = ''t'', chunk_id = 0, content = ''tort'', embedding = 4\<rparr>],
              embeddings = [4]\<rparr>"
proof -
  have a: "str_split ''  '' = []" and b: "str_split ''tort'' = [''tort'']"
    by (simp_all add: str_split_def isspace_def)
  from add_legal_document_succeeds[of length legal_knowledge_base_init "''t''" "''  ''"] a
  have c: "add_legal_document length legal_knowledge_base_init ''t'' ''  '' = Inr legal_knowledge_base_init"
    by auto
  from add_legal_document_succeeds[of length legal_knowledge_base_init "''t''" "''tort''"] b
  obtain kb' where k: "add_legal_document length legal_knowledge_base_init ''t'' ''tort'' = Inr kb'"
     "documents kb' = documents (legal_knowledge_base_init :: nat legal_knowledge_base)
          @ [\<lparr>title = ''t'', chunk_id = 0, content = ''tort'', embedding = length ''tort''\<rparr>]"
     "embeddings kb' = embeddings (legal_knowledge_base_init :: nat legal_knowledge_base) @ [length ''tort'']"
    by auto
  then have "kb' = \<lparr>documents = [\<lparr>title = ''t'', chunk_id = 0, content = ''tort'', embedding = 4\<rparr>],
              embeddings = [4]\<rparr>"
    by (simp add: legal_knowledge_base_init_def)
  with a b c k(1) show ?thesis by simp
qed

text \<open>
  Claim C8 as stated fails: adding the empty text to the empty store leaves it empty, where
  the claim promises one chunk.
\<close>

theorem add_legal_document_empty_counterexample:
  "add_legal_document length legal_knowledge_base_init ''contract_law'' '''' = Inr legal_knowledge_base_init"
  by (simp add: add_legal_document_def split_into_chunks_def py_range_def str_split_def)

section \<open>Similarity search\<close>

lemma add_legal_document_embeddings:
  assumes "embeddings kb = map embedding (documents kb)"
    and "add_legal_document encode kb ttl text = Inr kb'"
  shows "embeddings kb' = map embedding (documents kb')"
proof -
  have "embeddings (fold (append_chunk encode ttl) ics kb)
      = map embedding (documents (fold (append_chunk encode ttl) ics kb))" for ics
    using assms(1) by (simp add: fold_append_chunk o_def)
  with assms(2) show ?thesis by (auto simp: add_legal_document_eq)
qed

lemma load_documents_embeddings:
  "embeddings kb = map embedding (documents kb) \<Longrightarrow> load_documents encode docs kb = Inr kb'
     \<Longrightarrow> embeddings kb' = map embedding (documents kb')"
proof (induction docs arbitrary: kb)
  case Nil
  then show ?case by simp
next
  case (Cons d docs)
  obtain ttl body where d: "d = (ttl, body)" by (cases d)
  from Cons.prems(2) obtain kb1 where
    a: "add_legal_document encode kb ttl body = Inr kb1" and
    l: "load_documents encode docs kb1 = Inr kb'"
    by (auto simp: d split: sum.splits)
  from add_legal_document_embeddings[OF Cons.prems(1) a] l show ?case
    by (rule Cons.IH)
qed

lemma is_argsort_distinct: "is_argsort argsort \<Longrightarrow> distinct (argsort xs)"
  by (simp add: is_argsort_def)

lemma is_argsort_set: "is_argsort argsort \<Longrightarrow> set (argsort xs) = {0..<length xs}"
  by (simp add: is_argsort_def)

lemma is_argsort_sorted: "is_argsort argsort \<Longrightarrow> sorted (map (\<lambda>i. xs ! i) (argsort xs))"
  by (simp add: is_argsort_def)

lemma is_argsort_length:
  assumes "is_argsort argsort"
  shows "length (argsort xs) = length xs"
proof -
  have "length (argsort xs) = card (set (argsort xs))"
    using is_argsort_distinct[OF assms, of xs] by (simp add: distinct_card)
  also have "\<dots> = length xs" by (simp add: is_argsort_set[OF assms])
  finally show ?thesis .
qed

lemma is_argsort_insertion_argsort: "is_argsort insertion_argsort"
  by (simp add: is_argsort_def insertion_argsort_def)

lemma relevant_docs_loop_valid:
  "\<forall>i\<in>set is. i < length docs \<and> i < length sims \<Longrightarrow>
     relevant_docs_loop docs sims is
       = Inr (map (\<lambda>i. document.extend (docs ! i) (relevant_doc.fields (sims ! i))) is)"
  by (induction "is") simp_all

lemma clamp_index_neg: "0 < k \<Longrightarrow> clamp_index n (- k) = n - nat k"
  by (simp add: clamp_index_def)

lemma rev_drop_nth:
  assumes "a < length xs - d"
  shows "rev (drop d xs) ! a = xs ! (d + (length xs - d - Suc a))"
proof -
  have "rev (drop d xs) ! a = drop d xs ! (length (drop d xs) - Suc a)"
    using assms by (simp add: rev_nth)
  also have "\<dots> = xs ! (d + (length xs - d - Suc a))"
    using assms by simp
  finally show ?thesis .
qed

lemma search_relevant_docs_indices:
  fixes kb :: "'e legal_knowledge_base" and cosine :: "'e \<Rightarrow> 'e \<Rightarrow> 'r::linorder"
    and encode :: "string \<Rightarrow> 'e" and query :: string and k :: int
    and argsort :: "'r list \<Rightarrow> nat list"
  assumes sa: "is_argsort argsort"
    and inv: "embeddings kb = map embedding (documents kb)" and k: "0 < k"
  defines "n \<equiv> length (documents kb)"
  defines "score \<equiv> \<lambda>i. cosine (encode query) (embedding (documents kb ! i))"
  defines "sims \<equiv> map (cosine (encode query)) (embeddings kb)"
  defines "sel \<equiv> rev (drop (n - nat k) (argsort sims))"
  shows "search_relevant_docs encode cosine argsort kb query k
           = Inr (map (\<lambda>i. document.extend (documents kb ! i) (relevant_doc.fields (score i))) sel)"
    and "length sel = min (nat k) n"
    and "distinct sel"
    and "\<forall>i\<in>set sel. i < n"
    and "sorted (rev (map score sel))"
    and "\<forall>j<n. j \<notin> set sel \<longrightarrow> (\<forall>i\<in>set sel. score j \<le> score i)"
proof -
  have len: "length sims = n" by (simp add: sims_def n_def inv)
  have sc: "sims ! i = score i" if "i < n" for i
    using that by (simp add: sims_def score_def n_def inv)
  have las: "length (argsort sims) = n" by (simp add: is_argsort_length[OF sa] len)
  have sas: "set (argsort sims) = {0..<n}" by (simp add: is_argsort_set[OF sa] len)
  show lsel: "length sel = min (nat k) n" by (simp add: sel_def las)
  show "distinct sel" by (simp add: sel_def is_argsort_distinct[OF sa])
  show bound: "\<forall>i\<in>set sel. i < n"
  proof
    fix i assume "i \<in> set sel"
    then have "i \<in> set (argsort sims)" by (auto simp: sel_def dest: in_set_dropD)
    then show "i < n" by (simp add: sas)
  qed
  have mapsc: "map score (argsort sims) = map (\<lambda>i. sims ! i) (argsort sims)"
    by (rule map_cong) (simp_all add: sas sc)
  have sorted_all: "sorted (map score (argsort sims))"
    unfolding mapsc by (rule is_argsort_sorted[OF sa])
  have "rev (map score sel) = drop (n - nat k) (map score (argsort sims))"
    by (simp add: sel_def rev_map drop_map)
  with sorted_all show "sorted (rev (map score sel))" by (simp add: sorted_wrt_drop)
  show "search_relevant_docs encode cosine argsort kb query k
           = Inr (map (\<lambda>i. document.extend (documents kb ! i) (relevant_doc.fields (score i))) sel)"
  proof (cases "documents kb = []")
    case True
    then have "argsort sims = []" using las by (simp add: n_def)
    with True show ?thesis by (simp add: search_relevant_docs_def sel_def)
  next
    case False
    then have ne: "embeddings kb \<noteq> []" by (simp add: inv)
    have "relevant_docs_loop (documents kb) sims sel
        = Inr (map (\<lambda>i. document.extend (documents kb ! i) (relevant_doc.fields (sims ! i))) sel)"
      by (rule relevant_docs_loop_valid) (use bound len in \<open>simp add: n_def\<close>)
    also have "map (\<lambda>i. document.extend (documents kb ! i) (relevant_doc.fields (sims ! i))) sel
        = map (\<lambda>i. document.extend (documents kb ! i) (relevant_doc.fields (score i))) sel"
      by (rule map_cong) (use bound sc in simp_all)
    finally have loop: "relevant_docs_loop (documents kb) sims sel
        = Inr (map (\<lambda>i. document.extend (documents kb ! i) (relevant_doc.fields (score i))) sel)" .
    have sl: "rev (py_slice_from (argsort sims) (- k)) = sel"
      by (simp add: py_slice_from_def clamp_index_neg[OF k] las sel_def)
    have "search_relevant_docs encode cosine argsort kb query k
        = relevant_docs_loop (documents kb) sims (rev (py_slice_from (argsort sims) (- k)))"
      using False ne by (simp add: search_relevant_docs_def Let_def sims_def)
    then show ?thesis by (simp only: sl loop)
  qed
  show "\<forall>j<n. j \<notin> set sel \<longrightarrow> (\<forall>i\<in>set sel. score j \<le> score i)"
  proof (intro allI impI ballI)
    fix j i assume j: "j < n" and nj: "j \<notin> set sel" and i: "i \<in> set sel"
    define d where "d = n - nat k"
    have split: "argsort sims = take d (argsort sims) @ drop d (argsort sims)" by simp
    have "j \<in> set (argsort sims)" using j by (simp add: sas)
    then have "j \<in> set (take d (argsort sims)) \<union> set (drop d (argsort sims))"
      by (metis split set_append)
    with nj have jt: "j \<in> set (take d (argsort sims))" by (simp add: sel_def d_def)
    have id: "i \<in> set (drop d (argsort sims))" using i by (simp add: sel_def d_def)
    have "sorted (map score (take d (argsort sims)) @ map score (drop d (argsort sims)))"
      using sorted_all by (metis split map_append)
    then show "score j \<le> score i" using jt id by (auto simp: sorted_append)
  qed
qed

lemma similarity_extend [simp]:
  "similarity (document.extend d (relevant_doc.fields s)) = s"
  by (simp add: document.defs relevant_doc.defs)

text \<open>
  On values that are all different there is one argsort only, so on the example store the
  search does not depend on which argsort numpy implements.
\<close>

lemma is_argsort_distinct_values:
  assumes "is_argsort argsort" and "distinct xs"
  shows "argsort xs = insertion_argsort xs"
proof -
  have inj: "inj_on (\<lambda>i. xs ! i) {0..<length xs}"
    using assms(2) by (auto simp: inj_on_def nth_eq_iff_index_eq)
  have facts: "sorted (map (\<lambda>i. xs ! i) (f xs))" "distinct (map (\<lambda>i. xs ! i) (f xs))"
    "set (f xs) = {0..<length xs}" if "is_argsort f" for f :: "'a list \<Rightarrow> nat list"
    using that inj by (simp_all add: is_argsort_def distinct_map)
  note a = facts[OF assms(1)] and b = facts[OF is_argsort_insertion_argsort]
  have "set (map (\<lambda>i. xs ! i) (argsort xs)) = set (map (\<lambda>i. xs ! i) (insertion_argsort xs))"
    by (simp only: set_map a(3) b(3))
  with a(1,2) b(1,2)
  have "map (\<lambda>i. xs ! i) (argsort xs) = map (\<lambda>i. xs ! i) (insertion_argsort xs)"
    by (intro sorted_distinct_set_unique)
  moreover have "inj_on (\<lambda>i. xs ! i) (set (argsort xs) \<union> set (insertion_argsort xs))"
    using inj by (simp only: a(3) b(3) Un_absorb)
  ultimately show ?thesis by (simp only: inj_on_map_eq_map)
qed

lemma example_store_any_argsort:
  assumes "is_argsort argsort"
  shows "search_relevant_docs length length_similarity argsort example_store ''omega'' k
       = search_relevant_docs length length_similarity insertion_argsort example_store ''omega'' k"
proof -
  have "distinct (map (length_similarity (length ''omega'')) (embeddings example_store))"
    by (simp add: example_store_def length_similarity_def)
  from is_argsort_distinct_values[OF assms this] show ?thesis
    by (simp only: search_relevant_docs_def Let_def)
qed

text \<open>
  Claim C1, as the code behaves. \<open>numpy.argsort\<close> is any function that returns the
  positions of a sequence in ascending order of their values (\<open>is_argsort\<close>); where values
  are equal it promises no order. For a store built by \<open>add_legal_document\<close> calls: on an
  empty store the search returns the empty sequence for every \<open>top_k\<close>; for \<open>top_k\<close> of at
  least 1 it returns exactly \<open>min top_k n\<close> results, each a different stored chunk with its
  similarity to the query, in non-increasing order of similarity, and no chunk left out
  scores above a returned one (\<open>sel\<close> lists the positions of the returned chunks in the
  store).
\<close>

theorem search_relevant_docs_top_k:
  fixes kb :: "'e legal_knowledge_base" and cosine :: "'e \<Rightarrow> 'e \<Rightarrow> 'r::linorder"
    and argsort :: "'r list \<Rightarrow> nat list"
  assumes "is_argsort argsort"
    and "load_documents encode docs legal_knowledge_base_init = Inr kb"
  shows "(documents kb = [] \<longrightarrow> search_relevant_docs encode cosine argsort kb query k = Inr [])
     \<and> (0 < k \<longrightarrow> (\<exists>r sel.
          search_relevant_docs encode cosine argsort kb query k = Inr r
        \<and> r = map (\<lambda>i. document.extend (documents kb ! i)
                     (relevant_doc.fields (cosine (encode query) (embedding (documents kb ! i))))) sel
        \<and> length r = min (nat k) (length (documents kb))
        \<and> sorted (rev (map similarity r))
        \<and> distinct sel \<and> (\<forall>i\<in>set sel. i < length (documents kb))
        \<and> (\<forall>j<length (documents kb). j \<notin> set sel \<longrightarrow>
               (\<forall>h\<in>set r. cosine (encode query) (embedding (documents kb ! j)) \<le> similarity h))))"
proof (intro conjI impI)
  show "search_relevant_docs encode cosine argsort kb query k = Inr []" if "documents kb = []"
    using that by (simp add: search_relevant_docs_def)
next
  assume k: "0 < k"
  have "embeddings (legal_knowledge_base_init :: 'e legal_knowledge_base)
      = map embedding (documents (legal_knowledge_base_init :: 'e legal_knowledge_base))"
    by (simp add: legal_knowledge_base_init_def)
  from load_documents_embeddings[OF this assms(2)]
  have inv: "embeddings kb = map embedding (documents kb)" .
  define score where "score = (\<lambda>i. cosine (encode query) (embedding (documents kb ! i)))"
  define sel where "sel = rev (drop (length (documents kb) - nat k)
                       (argsort (map (cosine (encode query)) (embeddings kb))))"
  define r where "r = map (\<lambda>i. document.extend (documents kb ! i) (relevant_doc.fields (score i))) sel"
  note raw = search_relevant_docs_indices[OF assms(1) inv k,
      where encode=encode and cosine=cosine and query=query]
  have facts:
    "search_relevant_docs encode cosine argsort kb query k = Inr r"
    "length sel = min (nat k) (length (documents kb))"
    "distinct sel"
    "\<forall>i\<in>set sel. i < length (documents kb)"
    "sorted (rev (map score sel))"
    "\<forall>j<length (documents kb). j \<notin> set sel \<longrightarrow> (\<forall>i\<in>set sel. score j \<le> score i)"
    unfolding r_def sel_def score_def by (rule raw)+
  have sim: "map similarity r = map score sel" by (simp add: r_def o_def)
  have 1: "search_relevant_docs encode cosine argsort kb query k = Inr r" by (rule facts(1))
  have 2: "r = map (\<lambda>i. document.extend (documents kb ! i)
                     (relevant_doc.fields (cosine (encode query) (embedding (documents kb ! i))))) sel"
    by (simp add: r_def score_def)
  have 3: "length r = min (nat k) (length (documents kb))"
    using facts(2) by (simp add: r_def)
  have 4: "sorted (rev (map similarity r))" unfolding sim by (rule facts(5))
  have 5: "distinct sel" by (rule facts(3))
  have 6: "\<forall>i\<in>set sel. i < length (documents kb)" by (rule facts(4))
  have 8: "\<forall>j<length (documents kb). j \<notin> set sel \<longrightarrow>
               (\<forall>h\<in>set r. cosine (encode query) (embedding (documents kb ! j)) \<le> similarity h)"
    using facts(6) by (auto simp: r_def score_def)
  show "\<exists>r sel.
          search_relevant_docs encode cosine argsort kb query k = Inr r
        \<and> r = map (\<lambda>i. document.extend (documents kb ! i)
                     (relevant_doc.fields (cosine (encode query) (embedding (documents kb ! i))))) sel
        \<and> length r = min (nat k) (length (documents kb))
        \<and> sorted (rev (map similarity r))
        \<and> distinct sel \<and> (\<forall>i\<in>set sel. i < length (documents kb))
        \<and> (\<forall>j<length (documents kb). j \<notin> set sel \<longrightarrow>
               (\<forall>h\<in>set r. cosine (encode query) (embedding (documents kb ! j)) \<le> similarity h))"
    by (intro exI[of _ r] exI[of _ sel] conjI 1 2 3 4 5 6 8)
qed


text \<open>
  The theorem at the example store of three chunks, sorted by \<open>insertion_argsort\<close>, and
  \<open>top_k = 2\<close>.
\<close>

theorem search_relevant_docs_top_k_witness:
  "is_argsort (insertion_argsort :: int list \<Rightarrow> nat list)
   \<and> load_documents length [(''a'', ''alpha''), (''b'', ''eta''), (''c'', ''mu'')] legal_knowledge_base_init
     = Inr example_store
   \<and> (0::int) < 2
   \<and> (\<exists>r. search_relevant_docs length length_similarity insertion_argsort example_store ''omega'' 2
             = Inr r
        \<and> length r = 2 \<and> sorted (rev (map similarity r)))"
proof -
  have s: "is_argsort (insertion_argsort :: int list \<Rightarrow> nat list)"
    by (rule is_argsort_insertion_argsort)
  have l: "load_documents length [(''a'', ''alpha''), (''b'', ''eta''), (''c'', ''mu'')]
             legal_knowledge_base_init = Inr example_store"
    by code_simp
  have k: "(0::int) < 2" by simp
  from search_relevant_docs_top_k[OF s l, of length_similarity "''omega''" 2] k
  obtain r where
    "search_relevant_docs length length_similarity insertion_argsort example_store ''omega'' 2 = Inr r"
    "length r = min (nat 2) (length (documents example_store))" "sorted (rev (map similarity r))"
    by blast
  moreover have "min (nat 2) (length (documents example_store)) = 2"
    by (simp add: example_store_def)
  ultimately have "\<exists>r. search_relevant_docs length length_similarity insertion_argsort
                          example_store ''omega'' 2 = Inr r
        \<and> length r = 2 \<and> sorted (rev (map similarity r))"
    by auto
  with s l k show ?thesis by (intro conjI)
qed

text \<open>
  Claim C1 as stated fails at \<open>top_k = 0\<close>: on the example store, whose three chunks score
  0, -2 and -3 against the query, so that every argsort puts them in the same order
  (\<open>example_store_any_argsort\<close>), all three chunks are returned where \<open>min 0 3 = 0\<close>.
\<close>

theorem search_relevant_docs_counterexample:
  "search_relevant_docs length length_similarity insertion_argsort example_store ''omega'' 0
     = Inr [\<lparr>title = ''a'', chunk_id = 0, content = ''alpha'', embedding = 5, similarity = 0\<rparr>,
            \<lparr>title = ''b'', chunk_id = 0, content = ''eta'', embedding = 3, similarity = - 2\<rparr>,
            \<lparr>title = ''c'', chunk_id = 0, content = ''mu'', embedding = 2, similarity = - 3\<rparr>]
   \<and> min (nat 0) (length (documents example_store)) = 0"
  by code_simp

section \<open>The orchestrator and the system prompt\<close>

lemma conversation_history_add_message:
  "conversation_history (add_message env s spk msg ts) =
     conversation_history s @
       [\<lparr>speaker = spk, message = msg,
         timestamp = (case ts of None \<Rightarrow> datetime_now env (length (conversation_history s)) | Some t \<Rightarrow> t)\<rparr>]"
  by (simp add: add_message_def Let_def)

lemma add_message_fields [simp]:
  "ais (add_message env s spk msg ts) = ais s"
  "session_id (add_message env s spk msg ts) = session_id s"
  "prompt_manager (add_message env s spk msg ts) = prompt_manager s"
  by (simp_all add: add_message_def Let_def)


lemma spoken_add_message [simp]:
  "spoken (conversation_history (add_message env s spk msg ts))
     = spoken (conversation_history s) @ [(spk, msg)]"
  by (simp add: spoken_def conversation_history_add_message)

text \<open>
  Claim C3. For every input whose lowered text contains a keyword of the denylist, the turn
  takes the ethical-violation branch, returns exactly the three fixed refusals (Legal-AI,
  Tech-AI, Business-AI), records the user's message and the three refusals in the
  transcript, and makes no backend call: the list of calls is returned unchanged.
\<close>

theorem unethical_input_is_blocked:
  assumes "\<exists>keyword\<in>set unethical_keywords. sublist keyword (str_lower user_input)"
  shows "\<exists>s'. consultation_turn env d s user_input calls =
           (Ethical_violation,
            Inr [\<lparr>speaker = ''Legal-AI'', message = Some legal_response, ai_key = ''legal''\<rparr>,
                 \<lparr>speaker = ''Tech-AI'', message = Some tech_response, ai_key = ''tech''\<rparr>,
                 \<lparr>speaker = ''Business-AI'', message = Some business_response, ai_key = ''business''\<rparr>],
            s', calls)
         \<and> spoken (conversation_history s') =
             spoken (conversation_history s) @
               [(''You'', Some user_input), (''Legal-AI'', Some legal_response),
                (''Tech-AI'', Some tech_response), (''Business-AI'', Some business_response)]
         \<and> ais s' = ais s"
proof -
  from assms have "\<not> check_ethical_boundaries user_input"
    by (simp add: check_ethical_boundaries_def list_ex_iff)
  then show ?thesis
    by (simp add: consultation_turn_def handle_unethical_request_def Let_def)
qed

text \<open>
  The theorem at an input that spells the keyword \<open>hack\<close> in mixed case.
\<close>

theorem unethical_input_is_blocked_witness:
  "(\<exists>keyword\<in>set unethical_keywords. sublist keyword (str_lower ''Please HaCk the server''))
   \<and> (\<exists>s'. consultation_turn mock_env no_follow_up
              (multi_ai_consultation_init ''20250101_120000'' None) ''Please HaCk the server'' []
         = (Ethical_violation,
            Inr [\<lparr>speaker = ''Legal-AI'', message = Some legal_response, ai_key = ''legal''\<rparr>,
                 \<lparr>speaker = ''Tech-AI'', message = Some tech_response, ai_key = ''tech''\<rparr>,
                 \<lparr>speaker = ''Business-AI'', message = Some business_response, ai_key = ''business''\<rparr>],
            s', []))"
proof -
  have "sublist ''hack'' (str_lower ''Please HaCk the server'')" by code_simp
  then have h: "\<exists>keyword\<in>set unethical_keywords. sublist keyword (str_lower ''Please HaCk the server'')"
    by (simp add: unethical_keywords_def)
  from unethical_input_is_blocked[OF h, of mock_env no_follow_up
         "multi_ai_consultation_init ''20250101_120000'' None" "[]"] h
  show ?thesis by blast
qed


lemma first_round_ais:
  "ais (fst (snd (first_round env roster user_input (responses, s, calls)))) = ais s"
proof (induction roster arbitrary: responses s calls)
  case Nil
  then show ?case by simp
next
  case (Cons a roster)
  obtain key ai where a: "a = (key, ai)" by (cases a)
  show ?case
    by (cases "generate_response env ai user_input (conversation_history s) None calls")
       (auto simp: a Cons.IH split: sum.splits)
qed

lemma follow_up_round_ais:
  "ais (fst (snd (follow_up_round env roster user_input (responses, s, calls)))) = ais s"
proof (induction roster arbitrary: responses s calls)
  case Nil
  then show ?case by simp
next
  case (Cons a roster)
  obtain key ai where a: "a = (key, ai)" by (cases a)
  show ?case
    by (cases "generate_response env ai user_input (conversation_history s) (Some responses) calls")
       (auto simp: a Cons.IH split: sum.splits)
qed

lemma generate_ai_responses_ais:
  "ais (fst (snd (generate_ai_responses env d s user_input calls))) = ais s"
proof -
  obtain r s1 calls1 where f: "first_round env (ais s) user_input ([], s, calls) = (r, s1, calls1)"
    by (cases "first_round env (ais s) user_input ([], s, calls)")
  have s1: "ais s1 = ais s" using first_round_ais[of env "ais s" user_input "[]" s calls] f by simp
  show ?thesis
  proof (cases r)
    case (Inl e)
    then show ?thesis using f s1 by (simp add: generate_ai_responses_def)
  next
    case (Inr responses)
    then show ?thesis using f s1
        follow_up_round_ais[of env _ user_input responses s1 calls1]
      by (auto simp: generate_ai_responses_def split: sum.splits)
  qed
qed

lemma handle_unethical_request_ais:
  "ais (snd (handle_unethical_request env s user_input)) = ais s"
  by (simp add: handle_unethical_request_def Let_def)

lemma consultation_turn_ais:
  "ais (fst (snd (snd (consultation_turn env d s user_input calls)))) = ais s"
proof (cases "check_ethical_boundaries user_input")
  case True
  then show ?thesis
    using generate_ai_responses_ais[of env d "add_message env s ''You'' (Some user_input) None"
             user_input calls]
    by (simp add: consultation_turn_def Let_def split: prod.splits)
next
  case False
  then show ?thesis
    by (simp add: consultation_turn_def handle_unethical_request_def Let_def)
qed

lemma consultation_loop_ais:
  "ais (fst (consultation_loop env s events calls)) = ais s"
proof (induction events arbitrary: s calls)
  case Nil
  then show ?case by simp
next
  case (Cons ev events)
  show ?case
  proof (cases ev)
    case KeyboardInterrupt
    then show ?thesis by simp
  next
    case (Line typed d)
    obtain b r s' calls' where t: "consultation_turn env d s (str_strip typed) calls = (b, r, s', calls')"
      by (cases "consultation_turn env d s (str_strip typed) calls") auto
    have "ais s' = ais s" using consultation_turn_ais[of env d s "str_strip typed" calls] t by simp
    then show ?thesis using Line t Cons.IH by (simp add: Let_def)
  qed
qed

lemma run_consultation_ais:
  "ais (fst (run_consultation env s events calls)) = ais s"
  by (simp add: run_consultation_def consultation_loop_ais)

lemma generate_system_prompt_cong:
  assumes a: "name p' = name p" and b: "role p' = role p" and c: "personality p' = personality p"
    and d: "persona_prompt_manager p' = persona_prompt_manager p"
  shows "generate_system_prompt p' = generate_system_prompt p"
  unfolding generate_system_prompt_def a b c d by (rule refl)

text \<open>
  Claim C9. The system prompt is the same text for any two personas that agree on name,
  role, personality and attached prompt manager; so it is the same for every persona of the
  roster before and after the knowledge base is bound, and before and after any run of the
  consultation loop.
\<close>

theorem generate_system_prompt_deterministic:
  "(name p' = name p \<and> role p' = role p \<and> personality p' = personality p
      \<and> persona_prompt_manager p' = persona_prompt_manager p
      \<longrightarrow> generate_system_prompt p' = generate_system_prompt p)
   \<and> map (\<lambda>(k, ai). generate_system_prompt ai) (ais (integrate_legal_rag s kb))
       = map (\<lambda>(k, ai). generate_system_prompt ai) (ais s)
   \<and> map (\<lambda>(k, ai). generate_system_prompt ai) (ais (fst (run_consultation env s events calls)))
       = map (\<lambda>(k, ai). generate_system_prompt ai) (ais s)"
proof (intro conjI impI)
  assume "name p' = name p \<and> role p' = role p \<and> personality p' = personality p
      \<and> persona_prompt_manager p' = persona_prompt_manager p"
  then show "generate_system_prompt p' = generate_system_prompt p"
    by (intro generate_system_prompt_cong) blast+
next
  have "generate_system_prompt (set_knowledge_base ai kb) = generate_system_prompt ai" for ai
    by (rule generate_system_prompt_cong) (simp_all add: set_knowledge_base_def)
  then show "map (\<lambda>(k, ai). generate_system_prompt ai) (ais (integrate_legal_rag s kb))
       = map (\<lambda>(k, ai). generate_system_prompt ai) (ais s)"
    by (auto simp: integrate_legal_rag_def)
next
  show "map (\<lambda>(k, ai). generate_system_prompt ai) (ais (fst (run_consultation env s events calls)))
       = map (\<lambda>(k, ai). generate_system_prompt ai) (ais s)"
    by (simp only: run_consultation_ais)
qed

text \<open>
  The theorem at two different personas: Legal-AI with and without a knowledge base.
\<close>

theorem generate_system_prompt_deterministic_witness:
  "name (set_knowledge_base (legal_ai :: nat ai_persona) legal_knowledge_base_init) = name (legal_ai :: nat ai_persona)
   \<and> role (set_knowledge_base (legal_ai :: nat ai_persona) legal_knowledge_base_init) = role (legal_ai :: nat ai_persona)
   \<and> personality (set_knowledge_base (legal_ai :: nat ai_persona) legal_knowledge_base_init)
       = personality (legal_ai :: nat ai_persona)
   \<and> persona_prompt_manager (set_knowledge_base (legal_ai :: nat ai_persona) legal_knowledge_base_init)
       = persona_prompt_manager (legal_ai :: nat ai_persona)
   \<and> set_knowledge_base (legal_ai :: nat ai_persona) legal_knowledge_base_init \<noteq> legal_ai
   \<and> generate_system_prompt (set_knowledge_base (legal_ai :: nat ai_persona) legal_knowledge_base_init)
       = generate_system_prompt (legal_ai :: nat ai_persona)"
proof -
  have h: "name (set_knowledge_base (legal_ai :: nat ai_persona) legal_knowledge_base_init) = name (legal_ai :: nat ai_persona)
   \<and> role (set_knowledge_base (legal_ai :: nat ai_persona) legal_knowledge_base_init) = role (legal_ai :: nat ai_persona)
   \<and> personality (set_knowledge_base (legal_ai :: nat ai_persona) legal_knowledge_base_init)
       = personality (legal_ai :: nat ai_persona)
   \<and> persona_prompt_manager (set_knowledge_base (legal_ai :: nat ai_persona) legal_knowledge_base_init)
       = persona_prompt_manager (legal_ai :: nat ai_persona)"
    by (simp add: set_knowledge_base_def)
  have d: "set_knowledge_base (legal_ai :: nat ai_persona) legal_knowledge_base_init \<noteq> legal_ai"
    by (simp add: set_knowledge_base_def legal_ai_def ai_persona_init_def)
  from generate_system_prompt_deterministic[of
      "set_knowledge_base (legal_ai :: nat ai_persona) legal_knowledge_base_init" legal_ai] h d
  show ?thesis by blast
qed

section \<open>The prompt of a persona\<close>

lemma py_slice_from_neg: "0 < k \<Longrightarrow> py_slice_from xs (- k) = drop (length xs - nat k) xs"
  by (simp add: py_slice_from_def clamp_index_neg)

lemma py_slice_to_nat: "py_slice_to xs (int n) = take n xs"
  by (cases "n \<le> length xs") (simp_all add: py_slice_to_def clamp_index_nat min_def)

lemma context_messages_eq:
  "context_messages ctx other =
     map format_entry (filter (\<lambda>t. speaker t \<noteq> ''System'') (drop (length ctx - 10) ctx))
       @ (case other of None \<Rightarrow> [] | Some rs \<Rightarrow> map format_entry rs)"
  by (simp add: context_messages_def py_slice_from_neg Let_def split: option.splits)

lemma conversation_context_str_eq:
  "conversation_context_str msgs =
     (if msgs = [] then ''No prior context'' else str_join ''\<newline>'' (drop (length msgs - 5) msgs))"
  by (simp add: conversation_context_str_def py_slice_from_neg)

lemma build_prompt_layout:
  assumes "knowledge_context env p user_input = Inr k"
  shows "build_prompt env p user_input ctx other =
     Inr ((generate_system_prompt p @ ''\<newline>\<newline>'' @ role_reinforcement p @ ''\<newline>\<newline>'')
          @ ''CONVERSATION CONTEXT:\<newline>''
          @ conversation_context_str (context_messages ctx other)
          @ ''\<newline>\<newline>'' @ k @ ''\<newline>\<newline>USER QUERY: '' @ user_input
          @ (''\<newline>\<newline>IMPORTANT: Respond ONLY as '' @ name p @ '' with your '' @ role p
             @ '' perspective. Do NOT respond as any other AI. Start your response by clearly identifying yourself.\<newline>\<newline>''
             @ name p @ '':''))"
  using assms by (simp add: build_prompt_def full_prompt_def Let_def)

text \<open>
  Claim C5, as the code behaves. The context section of the prompt is built from the
  messages \<open>msgs\<close>: the turns among the last 10 of the transcript whose speaker is not
  \<open>System\<close>, followed by the peer responses when there are any, each as
  \<open>speaker: message\<close>. The section is the last 5 of \<open>msgs\<close> joined by newlines, or
  \<open>No prior context\<close> when \<open>msgs\<close> is empty, and it stands in the prompt under the heading
  \<open>CONVERSATION CONTEXT:\<close>, before the knowledge context and the user query.
\<close>

theorem context_window_of_prompt:
  "let msgs = map format_entry (filter (\<lambda>t. speaker t \<noteq> ''System'') (drop (length ctx - 10) ctx))
                @ (case other of None \<Rightarrow> [] | Some rs \<Rightarrow> map format_entry rs);
       window = (if msgs = [] then ''No prior context''
                  else str_join ''\<newline>'' (drop (length msgs - 5) msgs))
   in conversation_context_str (context_messages ctx other) = window
      \<and> (\<forall>k. knowledge_context env p user_input = Inr k \<longrightarrow>
            (\<exists>pre post. build_prompt env p user_input ctx other =
               Inr (pre @ ''CONVERSATION CONTEXT:\<newline>'' @ window @ ''\<newline>\<newline>'' @ k
                      @ ''\<newline>\<newline>USER QUERY: '' @ user_input @ post)))"
proof -
  define msgs where "msgs = map format_entry (filter (\<lambda>t. speaker t \<noteq> ''System'') (drop (length ctx - 10) ctx))
                @ (case other of None \<Rightarrow> [] | Some rs \<Rightarrow> map format_entry rs)"
  define window where "window = (if msgs = [] then ''No prior context''
                  else str_join ''\<newline>'' (drop (length msgs - 5) msgs))"
  have s: "conversation_context_str (context_messages ctx other) = window"
    unfolding window_def msgs_def context_messages_eq[symmetric] by (rule conversation_context_str_eq)
  have b: "\<forall>k. knowledge_context env p user_input = Inr k \<longrightarrow>
            (\<exists>pre post. build_prompt env p user_input ctx other =
               Inr (pre @ ''CONVERSATION CONTEXT:\<newline>'' @ window @ ''\<newline>\<newline>'' @ k
                      @ ''\<newline>\<newline>USER QUERY: '' @ user_input @ post))"
  proof (intro allI impI)
    fix k assume "knowledge_context env p user_input = Inr k"
    from build_prompt_layout[OF this, of ctx other]
    show "\<exists>pre post. build_prompt env p user_input ctx other =
               Inr (pre @ ''CONVERSATION CONTEXT:\<newline>'' @ window @ ''\<newline>\<newline>'' @ k
                      @ ''\<newline>\<newline>USER QUERY: '' @ user_input @ post)"
      unfolding s by blast
  qed
  from s b show ?thesis unfolding Let_def msgs_def[symmetric] window_def[symmetric] by blast
qed

lemma example_context:
  "conversation_context_str (context_messages example_transcript None)
     = ''Legal-AI: Hello.\<newline>Tech-AI: Hey.\<newline>Business-AI: Welcome.\<newline>You: thanks\<newline>Legal-AI: Gladly.''"
  by (simp add: conversation_context_str_def context_messages_def example_transcript_def
        py_slice_from_def clamp_index_def format_entry_def py_str_def)

text \<open>
  The theorem at the example transcript, for Tech-AI, which has no knowledge base.
\<close>

theorem context_window_of_prompt_witness:
  "knowledge_context mock_env tech_ai ''Should we track users?'' = Inr ''''
   \<and> conversation_context_str (context_messages example_transcript None)
       = ''Legal-AI: Hello.\<newline>Tech-AI: Hey.\<newline>Business-AI: Welcome.\<newline>You: thanks\<newline>Legal-AI: Gladly.''
   \<and> (\<exists>pre post. build_prompt mock_env tech_ai ''Should we track users?'' example_transcript None =
          Inr (pre @ ''CONVERSATION CONTEXT:\<newline>''
                 @ ''Legal-AI: Hello.\<newline>Tech-AI: Hey.\<newline>Business-AI: Welcome.\<newline>You: thanks\<newline>Legal-AI: Gladly.''
                 @ ''\<newline>\<newline>'' @ '''' @ ''\<newline>\<newline>USER QUERY: ''
                 @ ''Should we track users?'' @ post))"
proof -
  have k: "knowledge_context mock_env tech_ai ''Should we track users?'' = Inr ''''"
    by (simp add: knowledge_context_def tech_ai_def ai_persona_init_def)
  note w = context_window_of_prompt[of example_transcript None mock_env tech_ai
      "''Should we track users?''", unfolded Let_def]
  note w1 = w[THEN conjunct1]
  note w2 = w[THEN conjunct2, rule_format, OF k, unfolded w1[symmetric], unfolded example_context]
  from k example_context w2 show ?thesis by (intro conjI)
qed

text \<open>
  Claim C5 as stated fails on the example transcript: its 7 entries are all within the last
  10 and its second entry is the non-system turn \<open>You: hi\<close>, yet the context section
  holds only the five turns after it.
\<close>

theorem context_window_counterexample:
  "py_slice_from example_transcript (- 10) = example_transcript
   \<and> format_entry (example_transcript ! 1) = ''You: hi''
   \<and> conversation_context_str (context_messages example_transcript None)
       = ''Legal-AI: Hello.\<newline>Tech-AI: Hey.\<newline>Business-AI: Welcome.\<newline>You: thanks\<newline>Legal-AI: Gladly.''"
  by (simp add: conversation_context_str_def context_messages_def example_transcript_def
        py_slice_from_def clamp_index_def format_entry_def py_str_def)

lemma relevant_docs_loop_length:
  "relevant_docs_loop docs sims idxs = Inr r \<Longrightarrow> length r = length idxs"
proof (induction idxs arbitrary: r)
  case Nil
  then show ?case by simp
next
  case (Cons i idxs)
  then show ?case by (auto split: if_splits sum.splits)
qed

lemma search_relevant_docs_at_most:
  assumes "0 < k" and "search_relevant_docs encode cosine argsort kb query k = Inr hits"
  shows "length hits \<le> nat k"
proof (cases "documents kb = [] \<or> embeddings kb = []")
  case True
  with assms(2) show ?thesis by (auto simp: search_relevant_docs_def split: if_splits)
next
  case False
  with assms(2) have "relevant_docs_loop (documents kb) (map (cosine (encode query)) (embeddings kb))
      (rev (py_slice_from (argsort (map (cosine (encode query)) (embeddings kb))) (- k))) = Inr hits"
    by (simp add: search_relevant_docs_def Let_def)
  from relevant_docs_loop_length[OF this] show ?thesis
    using assms(1) by (simp add: py_slice_from_neg)
qed

lemma py_slice_to_200: "py_slice_to xs 200 = take 200 xs"
  using py_slice_to_nat[of xs 200] by simp

lemma knowledge_context_hits:
  assumes "knowledge_base p = Some kb"
    and "search_relevant_docs (model_encode env) (cosine_similarity env) (numpy_argsort env) kb user_input 2 = Inr hits"
  shows "knowledge_context env p user_input =
     Inr (if hits = [] then ''''
          else ''\<newline>RELEVANT KNOWLEDGE:\<newline>'' @
               concat (map (\<lambda>doc. ''- '' @ title doc @ '': '' @ take 200 (content doc) @ ''...\<newline>'') hits))"
  using assms by (simp add: knowledge_context_def py_slice_to_200)

lemma knowledge_context_unbound:
  "knowledge_context env (p\<lparr>knowledge_base := None\<rparr>) user_input = Inr ''''"
  by (simp add: knowledge_context_def)

lemma build_prompt_knowledge_cong:
  assumes "knowledge_context env p user_input = knowledge_context env p' user_input"
    and "name p' = name p" and "role p' = role p" and "personality p' = personality p"
    and "persona_prompt_manager p' = persona_prompt_manager p"
  shows "build_prompt env p user_input ctx other = build_prompt env p' user_input ctx other"
proof -
  have g: "generate_system_prompt p' = generate_system_prompt p"
    by (rule generate_system_prompt_cong) (rule assms)+
  have f: "full_prompt p' sp c k u = full_prompt p sp c k u" for sp c k u
    unfolding full_prompt_def role_reinforcement_def assms(2-4) by (rule refl)
  show ?thesis
    unfolding build_prompt_def assms(1) g f by (rule refl)
qed

text \<open>
  Claim C6. For a persona bound to a knowledge base whose search on the user input returns
  \<open>hits\<close>: there are at most 2 hits; when there is a hit, the knowledge context is the heading
  \<open>RELEVANT KNOWLEDGE:\<close> followed by one line per hit, with its title and the first 200
  characters of its content; when there is none, the knowledge context is empty and the
  prompt is the very prompt of the same persona without a knowledge base; and the knowledge
  context stands in the prompt right before the user query.
\<close>

theorem knowledge_excerpts_in_prompt:
  assumes "knowledge_base p = Some kb"
    and "search_relevant_docs (model_encode env) (cosine_similarity env) (numpy_argsort env) kb user_input 2 = Inr hits"
  shows "length hits \<le> 2
     \<and> (hits \<noteq> [] \<longrightarrow>
          knowledge_context env p user_input =
            Inr (''\<newline>RELEVANT KNOWLEDGE:\<newline>'' @
                 concat (map (\<lambda>doc. ''- '' @ title doc @ '': '' @ take 200 (content doc) @ ''...\<newline>'') hits)))
     \<and> (hits = [] \<longrightarrow>
          knowledge_context env p user_input = Inr ''''
          \<and> build_prompt env p user_input ctx other
              = build_prompt env (p\<lparr>knowledge_base := None\<rparr>) user_input ctx other)
     \<and> (\<exists>k pre post. knowledge_context env p user_input = Inr k
          \<and> build_prompt env p user_input ctx other =
              Inr (pre @ ''\<newline>\<newline>'' @ k @ ''\<newline>\<newline>USER QUERY: '' @ user_input @ post))"
proof (intro conjI impI)
  show "length hits \<le> 2"
    using search_relevant_docs_at_most[OF _ assms(2)] by simp
  note kc = knowledge_context_hits[OF assms]
  show "knowledge_context env p user_input =
            Inr (''\<newline>RELEVANT KNOWLEDGE:\<newline>'' @
                 concat (map (\<lambda>doc. ''- '' @ title doc @ '': '' @ take 200 (content doc) @ ''...\<newline>'') hits))"
    if "hits \<noteq> []"
    using that kc by simp
  show e: "knowledge_context env p user_input = Inr ''''" if "hits = []"
    using that kc by simp
  show "build_prompt env p user_input ctx other
              = build_prompt env (p\<lparr>knowledge_base := None\<rparr>) user_input ctx other" if "hits = []"
    by (rule build_prompt_knowledge_cong) (simp_all add: e[OF that] knowledge_context_unbound)
  obtain k where k: "knowledge_context env p user_input = Inr k" using kc by blast
  have "\<exists>pre post. build_prompt env p user_input ctx other =
              Inr (pre @ ''\<newline>\<newline>'' @ k @ ''\<newline>\<newline>USER QUERY: '' @ user_input @ post)"
    by (rule exI[of _ "(generate_system_prompt p @ ''\<newline>\<newline>'' @ role_reinforcement p @ ''\<newline>\<newline>'')
          @ ''CONVERSATION CONTEXT:\<newline>''
          @ conversation_context_str (context_messages ctx other)"], rule exI,
        simp only: build_prompt_layout[OF k] append_assoc)
  with k show "\<exists>k pre post. knowledge_context env p user_input = Inr k
          \<and> build_prompt env p user_input ctx other =
              Inr (pre @ ''\<newline>\<newline>'' @ k @ ''\<newline>\<newline>USER QUERY: '' @ user_input @ post)"
    by blast
qed

lemma example_store_search:
  "search_relevant_docs (model_encode mock_env) (cosine_similarity mock_env)
      (numpy_argsort mock_env) example_store ''omega'' 2
     = Inr [\<lparr>title = ''a'', chunk_id = 0, content = ''alpha'', embedding = 5, similarity = 0\<rparr>,
            \<lparr>title = ''b'', chunk_id = 0, content = ''eta'', embedding = 3, similarity = - 2\<rparr>]"
  by code_simp

lemma empty_store_search:
  "search_relevant_docs (model_encode mock_env) (cosine_similarity mock_env) (numpy_argsort mock_env)
     legal_knowledge_base_init ''omega'' 2 = Inr []"
  by (simp add: search_relevant_docs_def legal_knowledge_base_init_def)

text \<open>
  The theorem for Legal-AI bound to the example store (two hits) and to an empty store (no
  hit).
\<close>

theorem knowledge_excerpts_in_prompt_witness:
  "knowledge_base (set_knowledge_base legal_ai example_store) = Some example_store
   \<and> search_relevant_docs (model_encode mock_env) (cosine_similarity mock_env)
      (numpy_argsort mock_env) example_store ''omega'' 2
       = Inr [\<lparr>title = ''a'', chunk_id = 0, content = ''alpha'', embedding = 5, similarity = 0\<rparr>,
              \<lparr>title = ''b'', chunk_id = 0, content = ''eta'', embedding = 3, similarity = - 2\<rparr>]
   \<and> knowledge_context mock_env (set_knowledge_base legal_ai example_store) ''omega''
       = Inr ''\<newline>RELEVANT KNOWLEDGE:\<newline>- a: alpha...\<newline>- b: eta...\<newline>''
   \<and> knowledge_base (set_knowledge_base legal_ai legal_knowledge_base_init)
       = Some (legal_knowledge_base_init :: nat legal_knowledge_base)
   \<and> search_relevant_docs (model_encode mock_env) (cosine_similarity mock_env) (numpy_argsort mock_env)
         legal_knowledge_base_init ''omega'' 2 = Inr []
   \<and> knowledge_context mock_env (set_knowledge_base legal_ai legal_knowledge_base_init) ''omega'' = Inr ''''
   \<and> build_prompt mock_env (set_knowledge_base legal_ai legal_knowledge_base_init) ''omega''
         example_transcript None
       = build_prompt mock_env
           ((set_knowledge_base legal_ai legal_knowledge_base_init)\<lparr>knowledge_base := None\<rparr>) ''omega''
           example_transcript None"
proof -
  have b1: "knowledge_base (set_knowledge_base legal_ai example_store) = Some example_store"
    and b2: "knowledge_base (set_knowledge_base legal_ai legal_knowledge_base_init)
              = Some (legal_knowledge_base_init :: nat legal_knowledge_base)"
    by (simp_all add: set_knowledge_base_def)
  note t1 = knowledge_excerpts_in_prompt[OF b1 example_store_search, of example_transcript None]
  note t2 = knowledge_excerpts_in_prompt[OF b2 empty_store_search, of example_transcript None]
  from t1 have k1: "knowledge_context mock_env (set_knowledge_base legal_ai example_store) ''omega''
       = Inr ''\<newline>RELEVANT KNOWLEDGE:\<newline>- a: alpha...\<newline>- b: eta...\<newline>''"
    by simp
  from t2 have k2: "knowledge_context mock_env (set_knowledge_base legal_ai legal_knowledge_base_init) ''omega'' = Inr ''''"
    and k3: "build_prompt mock_env (set_knowledge_base legal_ai legal_knowledge_base_init) ''omega''
         example_transcript None
       = build_prompt mock_env
           ((set_knowledge_base legal_ai legal_knowledge_base_init)\<lparr>knowledge_base := None\<rparr>) ''omega''
           example_transcript None"
    by simp_all
  from b1 example_store_search k1 b2 empty_store_search k2 k3 show ?thesis by (intro conjI)
qed

section \<open>The first round under failing backends\<close>

lemma strip_keeps_prefix:
  assumes "x \<noteq> []" and "\<not> isspace (hd x)" and "\<not> isspace (last x)"
  shows "prefix x (str_strip (x @ y))"
proof -
  have fr: "dropWhile isspace (x @ y) = x @ y"
    using assms(1,2) by (cases x) simp_all
  have bk: "dropWhile isspace (rev x) = rev x"
    using assms(1,3) by (cases "rev x") (simp_all add: last_rev[symmetric] hd_rev)
  have "dropWhile isspace (rev y @ rev x) =
          (if \<forall>c\<in>set (rev y). isspace c then rev x else dropWhile isspace (rev y) @ rev x)"
    by (simp add: dropWhile_append bk)
  then have "str_strip (x @ y) =
          (if \<forall>c\<in>set (rev y). isspace c then x else x @ rev (dropWhile isspace (rev y)))"
    by (simp add: str_strip_def fr)
  then show ?thesis by simp
qed

lemma strip_cli_error: "error_text (str_strip (''CLI Error: '' @ e))"
proof -
  have "prefix ''CLI Error:'' (str_strip (''CLI Error:'' @ ('' '' @ e)))"
    by (rule strip_keeps_prefix) (simp_all add: isspace_def)
  then show ?thesis by (simp add: error_text_def)
qed

lemma strip_error: "error_text (str_strip (''Error: '' @ e))"
proof -
  have "prefix ''Error:'' (str_strip (''Error:'' @ ('' '' @ e)))"
    by (rule strip_keeps_prefix) (simp_all add: isspace_def)
  then show ?thesis by (simp add: error_text_def)
qed

lemma cli_fails_text:
  assumes "cli_fails env calls model prompt"
  shows "error_text (str_strip (fst (generate_with_ollama_cli env calls model prompt)))"
proof (cases "subprocess_run env calls [''ollama'', ''run'', model, cli_short_prompt prompt]")
  case (Inl e)
  then show ?thesis using strip_cli_error[of e] by (simp add: generate_with_ollama_cli_def)
next
  case (Inr res)
  obtain rc out err where res: "res = (rc, out, err)" by (cases res)
  with Inr assms have "rc \<noteq> 0" by (simp add: cli_fails_def)
  with Inr res show ?thesis using strip_error[of err] by (simp add: generate_with_ollama_cli_def)
qed

lemma call_backend_total:
  "\<exists>text calls'. call_backend env p prompt calls = (Inr text, calls')"
  by (simp add: call_backend_def Let_def split: sum.splits prod.splits)

lemma cli_fails_exact:
  assumes "cli_fails env calls model prompt"
  shows "fst (generate_with_ollama_cli env calls model prompt) = cli_failure_text env calls model prompt"
proof (cases "subprocess_run env calls [''ollama'', ''run'', model, cli_short_prompt prompt]")
  case (Inl e)
  then show ?thesis by (simp add: generate_with_ollama_cli_def cli_failure_text_def)
next
  case (Inr res)
  obtain rc out err where res: "res = (rc, out, err)" by (cases res)
  with Inr assms have "rc \<noteq> 0" by (simp add: cli_fails_def)
  with Inr res show ?thesis by (simp add: generate_with_ollama_cli_def cli_failure_text_def)
qed

lemma call_backend_fails:
  assumes "generation_fails env p prompt calls"
  shows "\<exists>calls'. call_backend env p prompt calls
                     = (Inr (Some (str_strip (failure_text env p prompt calls))), calls')"
proof (cases "OLLAMA_METHOD env = ''python''")
  case True
  with assms obtain e where
    g: "ollama_generate env calls (model_name p) prompt (dict_get (personality p) ''temperature'' ''0.7'') = Inl e"
    and c: "cli_fails env
           (calls @ [Ollama_generate (model_name p) prompt (dict_get (personality p) ''temperature'' ''0.7'')])
           (model_name p) prompt"
    and a: "OLLAMA_AVAILABLE env"
    by (auto simp: generation_fails_def isl_def)
  from cli_fails_exact[OF c] a g True show ?thesis
    by (auto simp: call_backend_def failure_text_def Let_def split: prod.splits)
next
  case False
  with assms have m: "OLLAMA_METHOD env = ''cli''" and c: "cli_fails env calls (model_name p) prompt"
    and a: "OLLAMA_AVAILABLE env"
    by (simp_all add: generation_fails_def)
  from cli_fails_exact[OF c] a m False show ?thesis
    by (auto simp: call_backend_def failure_text_def Let_def split: prod.splits)
qed

lemma failure_text_shows_error:
  assumes "generation_fails env p prompt calls"
  shows "error_text (str_strip (failure_text env p prompt calls))"
proof (cases "OLLAMA_METHOD env = ''python''")
  case True
  with assms have c: "cli_fails env
           (calls @ [Ollama_generate (model_name p) prompt (dict_get (personality p) ''temperature'' ''0.7'')])
           (model_name p) prompt"
    by (simp add: generation_fails_def)
  from cli_fails_text[OF c] show ?thesis
    by (simp add: cli_fails_exact[OF c] failure_text_def True)
next
  case False
  with assms have c: "cli_fails env calls (model_name p) prompt"
    by (simp add: generation_fails_def)
  from cli_fails_text[OF c] show ?thesis
    by (simp add: cli_fails_exact[OF c] failure_text_def False)
qed

lemma knowledge_context_consistent:
  assumes "is_argsort (numpy_argsort env)" and "kb_consistent p"
  shows "\<exists>k. knowledge_context env p user_input = Inr k"
proof (cases "knowledge_base p")
  case None
  then show ?thesis by (simp add: knowledge_context_def)
next
  case (Some kb)
  with assms(2) have inv: "embeddings kb = map embedding (documents kb)"
    by (simp add: kb_consistent_def)
  have "0 < (2::int)" by simp
  from search_relevant_docs_indices(1)[OF assms(1) inv this]
  obtain hits where "search_relevant_docs (model_encode env) (cosine_similarity env)
                       (numpy_argsort env) kb user_input 2 = Inr hits"
    by blast
  with Some show ?thesis by (simp add: knowledge_context_def)
qed

lemma build_prompt_consistent:
  assumes "is_argsort (numpy_argsort env)" and "kb_consistent p"
  shows "\<exists>prompt. build_prompt env p user_input ctx other = Inr prompt"
  using knowledge_context_consistent[OF assms, of user_input]
  by (auto simp: build_prompt_def Let_def)

lemma generate_response_total:
  assumes "is_argsort (numpy_argsort env)" and "kb_consistent p"
  shows "\<exists>text calls'. generate_response env p user_input ctx other calls = (Inr text, calls')"
proof -
  from build_prompt_consistent[OF assms] obtain prompt where
    b: "build_prompt env p user_input ctx other = Inr prompt" by blast
  from call_backend_total obtain reply calls' where
    "call_backend env p prompt calls = (Inr reply, calls')" by blast
  with b show ?thesis by (simp add: generate_response_def)
qed

lemma generate_response_fails:
  assumes "build_prompt env p user_input ctx other = Inr prompt"
    and "generation_fails env p prompt calls"
  shows "\<exists>calls'. generate_response env p user_input ctx other calls
                     = (Inr (Some (str_strip (failure_text env p prompt calls))), calls')"
proof -
  from call_backend_fails[OF assms(2)] obtain calls' where
    "call_backend env p prompt calls = (Inr (Some (str_strip (failure_text env p prompt calls))), calls')"
    by blast
  with assms(1) show ?thesis by (simp add: generate_response_def)
qed

lemma first_round_total:
  assumes "is_argsort (numpy_argsort env)" and "list_all (\<lambda>(key, ai). kb_consistent ai) roster"
  shows "\<exists>new s' calls'.
           first_round env roster user_input (responses, s, calls) = (Inr (responses @ new), s', calls')
         \<and> map speaker new = map (\<lambda>(key, ai). name ai) roster
         \<and> map ai_key new = map fst roster
         \<and> spoken (conversation_history s') = spoken (conversation_history s) @ spoken new"
  using assms(2)
proof (induction roster arbitrary: responses s calls)
  case Nil
  then show ?case by (simp add: spoken_def)
next
  case (Cons a roster)
  obtain key ai where a: "a = (key, ai)" by (cases a)
  from Cons.prems a have c: "kb_consistent ai" and rest: "list_all (\<lambda>(key, ai). kb_consistent ai) roster"
    by simp_all
  from generate_response_total[OF assms(1) c] obtain reply calls1 where
    g: "generate_response env ai user_input (conversation_history s) None calls = (Inr reply, calls1)"
    by blast
  define r where "r = \<lparr>speaker = name ai, message = reply, ai_key = key\<rparr>"
  from Cons.IH[OF rest, of "responses @ [r]" "add_message env s (name ai) reply None" calls1]
  obtain new s' calls' where
    f: "first_round env roster user_input (responses @ [r], add_message env s (name ai) reply None, calls1)
          = (Inr ((responses @ [r]) @ new), s', calls')"
    and sp: "map speaker new = map (\<lambda>(key, ai). name ai) roster"
    and ak: "map ai_key new = map fst roster"
    and hist: "spoken (conversation_history s')
                = spoken (conversation_history (add_message env s (name ai) reply None)) @ spoken new"
    by blast
  have "first_round env (a # roster) user_input (responses, s, calls) = (Inr (responses @ (r # new)), s', calls')"
    using g f by (simp add: a r_def)
  moreover have "map speaker (r # new) = map (\<lambda>(key, ai). name ai) (a # roster)"
    using sp by (simp add: a r_def)
  moreover have "map ai_key (r # new) = map fst (a # roster)"
    using ak by (simp add: a r_def)
  moreover have "spoken (conversation_history s') = spoken (conversation_history s) @ spoken (r # new)"
  proof -
    have "spoken (r # new) = (name ai, reply) # spoken new" by (simp add: spoken_def r_def)
    with hist show ?thesis by simp
  qed
  ultimately show ?case by blast
qed

lemma first_round_append:
  "first_round env (pre @ post) user_input st =
     (case first_round env pre user_input st of
        (Inl e, s', calls') \<Rightarrow> (Inl e, s', calls')
      | (Inr responses, s', calls') \<Rightarrow> first_round env post user_input (responses, s', calls'))"
proof (induction pre arbitrary: st)
  case Nil
  obtain responses s calls where st: "st = (responses, s, calls)" by (cases st)
  show ?case by (simp add: st)
next
  case (Cons a pre)
  obtain key ai where a: "a = (key, ai)" by (cases a)
  obtain responses s calls where st: "st = (responses, s, calls)" by (cases st)
  show ?case
  proof (cases "generate_response env ai user_input (conversation_history s) None calls")
    case (Pair res calls1)
    show ?thesis
    proof (cases res)
      case (Inl e)
      with Pair show ?thesis by (simp add: a st)
    next
      case (Inr reply)
      with Pair Cons.IH show ?thesis by (simp add: a st)
    qed
  qed
qed

lemma first_round_entry:
  assumes sa: "is_argsort (numpy_argsort env)"
    and ok: "list_all (\<lambda>(key, ai). kb_consistent ai) (pre @ (key, ai) # post)"
    and f: "first_round env (pre @ (key, ai) # post) user_input ([], s, calls)
              = (Inr responses, s', calls')"
  shows "\<exists>s_mid calls_mid reply calls_next.
           first_round env pre user_input ([], s, calls)
             = (Inr (take (length pre) responses), s_mid, calls_mid)
         \<and> generate_response env ai user_input (conversation_history s_mid) None calls_mid
             = (Inr reply, calls_next)
         \<and> responses ! length pre = \<lparr>speaker = name ai, message = reply, ai_key = key\<rparr>"
proof -
  from ok have okpre: "list_all (\<lambda>(key, ai). kb_consistent ai) pre"
    and c: "kb_consistent ai"
    and okpost: "list_all (\<lambda>(key, ai). kb_consistent ai) post"
    by simp_all
  from first_round_total[OF sa okpre, of user_input "[]" s calls]
  obtain before s_mid calls_mid where
    p: "first_round env pre user_input ([], s, calls) = (Inr before, s_mid, calls_mid)"
    and ak: "map ai_key before = map fst pre"
    by auto
  from ak have lb: "length before = length pre" by (metis length_map)
  from generate_response_total[OF sa c] obtain reply calls_next where
    g: "generate_response env ai user_input (conversation_history s_mid) None calls_mid
          = (Inr reply, calls_next)"
    by blast
  define r where "r = \<lparr>speaker = name ai, message = reply, ai_key = key\<rparr>"
  from first_round_total[OF sa okpost, of user_input "before @ [r]"
      "add_message env s_mid (name ai) reply None" calls_next]
  obtain new s2 calls2 where
    q: "first_round env post user_input
          (before @ [r], add_message env s_mid (name ai) reply None, calls_next)
          = (Inr ((before @ [r]) @ new), s2, calls2)"
    by blast
  have "first_round env (pre @ (key, ai) # post) user_input ([], s, calls)
          = (Inr ((before @ [r]) @ new), s2, calls2)"
    using q by (simp add: first_round_append p g r_def)
  with f have resp: "responses = before @ r # new" by simp
  have 1: "take (length pre) responses = before" using lb by (simp add: resp)
  have 2: "responses ! length pre = r" using lb by (simp add: resp nth_append)
  from p g 1 2 show ?thesis unfolding r_def by (intro exI conjI) simp_all
qed

lemma persona_names [simp]:
  "name legal_ai = ''Legal-AI''" "name tech_ai = ''Tech-AI''" "name business_ai = ''Business-AI''"
  by (simp_all add: legal_ai_def tech_ai_def business_ai_def ai_persona_init_def)

lemma persona_unbound [simp]:
  "knowledge_base legal_ai = None" "knowledge_base tech_ai = None" "knowledge_base business_ai = None"
  by (simp_all add: legal_ai_def tech_ai_def business_ai_def ai_persona_init_def)

lemma roster_init:
  "map (\<lambda>(key, ai). name ai) (ais (multi_ai_consultation_init sid pm)) = [''Legal-AI'', ''Tech-AI'', ''Business-AI'']"
  "map fst (ais (multi_ai_consultation_init sid pm)) = [''legal'', ''tech'', ''business'']"
  "list_all (\<lambda>(key, ai). kb_consistent ai) (ais (multi_ai_consultation_init sid pm))"
  by (cases pm; simp add: multi_ai_consultation_init_def setup_ai_personas_def Let_def
        kb_consistent_def)+

lemma roster_integrate:
  "map (\<lambda>(key, ai). name ai) (ais (integrate_legal_rag s kb)) = map (\<lambda>(key, ai). name ai) (ais s)"
  "map fst (ais (integrate_legal_rag s kb)) = map fst (ais s)"
  by (auto simp: integrate_legal_rag_def set_knowledge_base_def)

lemma roster_integrate_consistent:
  assumes "embeddings kb = map embedding (documents kb)"
    and "list_all (\<lambda>(key, ai). kb_consistent ai) (ais s)"
  shows "list_all (\<lambda>(key, ai). kb_consistent ai) (ais (integrate_legal_rag s kb))"
  using assms
  by (auto simp: integrate_legal_rag_def set_knowledge_base_def kb_consistent_def list_all_iff
        split: if_splits option.splits)

text \<open>
  Claim C4. \<open>numpy.argsort\<close> is any function that sorts positions by their values. For a
  persona whose knowledge base is consistent, \<open>generate_response\<close> always returns a response
  and never raises, whatever the backends do; when every backend call it makes fails, the
  response is the stripped text of the failure (\<open>failure_text\<close>: \<open>CLI Error:\<close> and the
  exception of the command line call, or \<open>Error:\<close> and its error output), a text that
  shows the error. The first round over any roster of such personas returns one response
  per persona, in the order of the roster, each also appended to the transcript. The entry
  of each persona of the roster carries the persona's name and key and, as its message,
  what \<open>generate_response\<close> returned for that persona when called with the transcript
  and the calls left by the round over the personas before it, whose entries are the
  entries before this one; so when generation fails for that persona, the message of its
  entry is the failure text, and the entries of the other personas are there all the same.
  For the three registered personas, with or without the knowledge base bound to Legal-AI,
  the knowledge bases are consistent and the entries are those of Legal-AI, Tech-AI and
  Business-AI.
\<close>

theorem first_round_survives_failures:
  assumes "is_argsort (numpy_argsort env)"
  shows
  "(kb_consistent p \<longrightarrow>
      (\<exists>reply calls'. generate_response env p user_input ctx other calls = (Inr reply, calls'))
    \<and> (\<forall>prompt. build_prompt env p user_input ctx other = Inr prompt
                  \<and> generation_fails env p prompt calls \<longrightarrow>
           (\<exists>calls'. generate_response env p user_input ctx other calls
                        = (Inr (Some (str_strip (failure_text env p prompt calls))), calls'))
         \<and> error_text (str_strip (failure_text env p prompt calls))))
   \<and> (list_all (\<lambda>(key, ai). kb_consistent ai) roster \<longrightarrow>
        (\<exists>responses s' calls'.
            first_round env roster user_input ([], s, calls) = (Inr responses, s', calls')
          \<and> length responses = length roster
          \<and> map speaker responses = map (\<lambda>(key, ai). name ai) roster
          \<and> map ai_key responses = map fst roster
          \<and> spoken (conversation_history s') = spoken (conversation_history s) @ spoken responses
          \<and> (\<forall>pre key ai post. roster = pre @ (key, ai) # post \<longrightarrow>
               (\<exists>s_mid calls_mid reply calls_next.
                   first_round env pre user_input ([], s, calls)
                     = (Inr (take (length pre) responses), s_mid, calls_mid)
                 \<and> generate_response env ai user_input (conversation_history s_mid) None calls_mid
                     = (Inr reply, calls_next)
                 \<and> responses ! length pre = \<lparr>speaker = name ai, message = reply, ai_key = key\<rparr>
                 \<and> (\<forall>prompt. build_prompt env ai user_input (conversation_history s_mid) None = Inr prompt
                              \<and> generation_fails env ai prompt calls_mid \<longrightarrow>
                        reply = Some (str_strip (failure_text env ai prompt calls_mid))
                      \<and> error_text (str_strip (failure_text env ai prompt calls_mid)))))))
   \<and> (embeddings kb = map embedding (documents kb)
        \<and> (registered = ais (multi_ai_consultation_init sid pm)
             \<or> registered = ais (integrate_legal_rag (multi_ai_consultation_init sid pm) kb)) \<longrightarrow>
        list_all (\<lambda>(key, ai). kb_consistent ai) registered
        \<and> (\<exists>responses s' calls'.
            first_round env registered user_input ([], s, calls) = (Inr responses, s', calls')
          \<and> map speaker responses = [''Legal-AI'', ''Tech-AI'', ''Business-AI'']
          \<and> map ai_key responses = [''legal'', ''tech'', ''business'']
          \<and> spoken (conversation_history s') = spoken (conversation_history s) @ spoken responses))"
proof (intro conjI impI allI)
  assume "kb_consistent p"
  then show "\<exists>reply calls'. generate_response env p user_input ctx other calls = (Inr reply, calls')"
    by (rule generate_response_total[OF assms])
next
  fix prompt
  assume "build_prompt env p user_input ctx other = Inr prompt \<and> generation_fails env p prompt calls"
  then show "\<exists>calls'. generate_response env p user_input ctx other calls
                        = (Inr (Some (str_strip (failure_text env p prompt calls))), calls')"
    using generate_response_fails by blast
next
  fix prompt
  assume "build_prompt env p user_input ctx other = Inr prompt \<and> generation_fails env p prompt calls"
  then show "error_text (str_strip (failure_text env p prompt calls))"
    using failure_text_shows_error by blast
next
  assume ok: "list_all (\<lambda>(key, ai). kb_consistent ai) roster"
  from first_round_total[OF assms ok, of user_input "[]" s calls]
  obtain new s' calls' where
    f: "first_round env roster user_input ([], s, calls) = (Inr new, s', calls')"
    and sp: "map speaker new = map (\<lambda>(key, ai). name ai) roster"
    and ak: "map ai_key new = map fst roster"
    and hist: "spoken (conversation_history s') = spoken (conversation_history s) @ spoken new"
    by auto
  from ak have len: "length new = length roster" by (metis length_map)
  have entry: "\<forall>pre key ai post. roster = pre @ (key, ai) # post \<longrightarrow>
               (\<exists>s_mid calls_mid reply calls_next.
                   first_round env pre user_input ([], s, calls)
                     = (Inr (take (length pre) new), s_mid, calls_mid)
                 \<and> generate_response env ai user_input (conversation_history s_mid) None calls_mid
                     = (Inr reply, calls_next)
                 \<and> new ! length pre = \<lparr>speaker = name ai, message = reply, ai_key = key\<rparr>
                 \<and> (\<forall>prompt. build_prompt env ai user_input (conversation_history s_mid) None = Inr prompt
                              \<and> generation_fails env ai prompt calls_mid \<longrightarrow>
                        reply = Some (str_strip (failure_text env ai prompt calls_mid))
                      \<and> error_text (str_strip (failure_text env ai prompt calls_mid))))"
  proof (intro allI impI)
    fix pre key ai post
    assume split: "roster = pre @ (key, ai) # post"
    from first_round_entry[OF assms ok[unfolded split] f[unfolded split]]
    obtain s_mid calls_mid reply calls_next where
      p: "first_round env pre user_input ([], s, calls)
            = (Inr (take (length pre) new), s_mid, calls_mid)"
      and g: "generate_response env ai user_input (conversation_history s_mid) None calls_mid
            = (Inr reply, calls_next)"
      and e: "new ! length pre = \<lparr>speaker = name ai, message = reply, ai_key = key\<rparr>"
      by blast
    have x: "\<forall>prompt. build_prompt env ai user_input (conversation_history s_mid) None = Inr prompt
                              \<and> generation_fails env ai prompt calls_mid \<longrightarrow>
                        reply = Some (str_strip (failure_text env ai prompt calls_mid))
                      \<and> error_text (str_strip (failure_text env ai prompt calls_mid))"
    proof (intro allI impI conjI)
      fix prompt
      assume h: "build_prompt env ai user_input (conversation_history s_mid) None = Inr prompt
                 \<and> generation_fails env ai prompt calls_mid"
      from h generate_response_fails[of env ai user_input "conversation_history s_mid" None prompt calls_mid]
      obtain calls2 where
        "generate_response env ai user_input (conversation_history s_mid) None calls_mid
           = (Inr (Some (str_strip (failure_text env ai prompt calls_mid))), calls2)"
        by blast
      with g show "reply = Some (str_strip (failure_text env ai prompt calls_mid))" by simp
      from h show "error_text (str_strip (failure_text env ai prompt calls_mid))"
        using failure_text_shows_error by blast
    qed
    from p g e x show "\<exists>s_mid calls_mid reply calls_next.
                   first_round env pre user_input ([], s, calls)
                     = (Inr (take (length pre) new), s_mid, calls_mid)
                 \<and> generate_response env ai user_input (conversation_history s_mid) None calls_mid
                     = (Inr reply, calls_next)
                 \<and> new ! length pre = \<lparr>speaker = name ai, message = reply, ai_key = key\<rparr>
                 \<and> (\<forall>prompt. build_prompt env ai user_input (conversation_history s_mid) None = Inr prompt
                              \<and> generation_fails env ai prompt calls_mid \<longrightarrow>
                        reply = Some (str_strip (failure_text env ai prompt calls_mid))
                      \<and> error_text (str_strip (failure_text env ai prompt calls_mid)))"
      by (intro exI conjI)
  qed
  from f len sp ak hist entry
  show "\<exists>responses s' calls'.
            first_round env roster user_input ([], s, calls) = (Inr responses, s', calls')
          \<and> length responses = length roster
          \<and> map speaker responses = map (\<lambda>(key, ai). name ai) roster
          \<and> map ai_key responses = map fst roster
          \<and> spoken (conversation_history s') = spoken (conversation_history s) @ spoken responses
          \<and> (\<forall>pre key ai post. roster = pre @ (key, ai) # post \<longrightarrow>
               (\<exists>s_mid calls_mid reply calls_next.
                   first_round env pre user_input ([], s, calls)
                     = (Inr (take (length pre) responses), s_mid, calls_mid)
                 \<and> generate_response env ai user_input (conversation_history s_mid) None calls_mid
                     = (Inr reply, calls_next)
                 \<and> responses ! length pre = \<lparr>speaker = name ai, message = reply, ai_key = key\<rparr>
                 \<and> (\<forall>prompt. build_prompt env ai user_input (conversation_history s_mid) None = Inr prompt
                              \<and> generation_fails env ai prompt calls_mid \<longrightarrow>
                        reply = Some (str_strip (failure_text env ai prompt calls_mid))
                      \<and> error_text (str_strip (failure_text env ai prompt calls_mid)))))"
    by (intro exI conjI)
next
  assume a: "embeddings kb = map embedding (documents kb)
        \<and> (registered = ais (multi_ai_consultation_init sid pm)
             \<or> registered = ais (integrate_legal_rag (multi_ai_consultation_init sid pm) kb))"
  then have inv: "embeddings kb = map embedding (documents kb)"
    and reg: "registered = ais (multi_ai_consultation_init sid pm)
             \<or> registered = ais (integrate_legal_rag (multi_ai_consultation_init sid pm) kb)"
    by blast+
  show "list_all (\<lambda>(key, ai). kb_consistent ai) registered"
    using reg roster_init(3)[of sid pm] roster_integrate_consistent[OF inv roster_init(3), of sid pm]
    by (elim disjE) (simp_all only:)
next
  assume a: "embeddings kb = map embedding (documents kb)
        \<and> (registered = ais (multi_ai_consultation_init sid pm)
             \<or> registered = ais (integrate_legal_rag (multi_ai_consultation_init sid pm) kb))"
  then have inv: "embeddings kb = map embedding (documents kb)"
    and reg: "registered = ais (multi_ai_consultation_init sid pm)
             \<or> registered = ais (integrate_legal_rag (multi_ai_consultation_init sid pm) kb)"
    by blast+
  have ok: "list_all (\<lambda>(key, ai). kb_consistent ai) registered"
    using reg roster_init(3)[of sid pm] roster_integrate_consistent[OF inv roster_init(3), of sid pm]
    by (elim disjE) (simp_all only:)
  have nm: "map (\<lambda>(key, ai). name ai) registered = [''Legal-AI'', ''Tech-AI'', ''Business-AI'']"
    using reg by (elim disjE) (simp_all only: roster_integrate roster_init)
  have ky: "map fst registered = [''legal'', ''tech'', ''business'']"
    using reg by (elim disjE) (simp_all only: roster_integrate roster_init)
  from first_round_total[OF assms ok, of user_input "[]" s calls]
  obtain new s' calls' where
    f: "first_round env registered user_input ([], s, calls) = (Inr new, s', calls')"
    and sp: "map speaker new = map (\<lambda>(key, ai). name ai) registered"
    and ak: "map ai_key new = map fst registered"
    and hist: "spoken (conversation_history s') = spoken (conversation_history s) @ spoken new"
    by auto
  show "\<exists>responses s' calls'.
            first_round env registered user_input ([], s, calls) = (Inr responses, s', calls')
          \<and> map speaker responses = [''Legal-AI'', ''Tech-AI'', ''Business-AI'']
          \<and> map ai_key responses = [''legal'', ''tech'', ''business'']
          \<and> spoken (conversation_history s') = spoken (conversation_history s) @ spoken responses"
    using f sp ak hist unfolding nm ky by (intro exI conjI)
qed

lemma failing_env_fails: "generation_fails failing_env p prompt calls"
  by (simp add: generation_fails_def cli_fails_def failing_env_def mock_env_def)

lemma failing_env_argsort: "is_argsort (numpy_argsort failing_env)"
  by (simp add: failing_env_def mock_env_def is_argsort_insertion_argsort)

lemma failing_env_failure_text:
  "str_strip (failure_text failing_env p prompt calls) = ''CLI Error: No such file or directory''"
proof -
  have "failure_text failing_env p prompt calls = ''CLI Error: No such file or directory''"
    by (simp add: failure_text_def cli_failure_text_def failing_env_def mock_env_def)
  moreover have "str_strip ''CLI Error: No such file or directory''
                   = ''CLI Error: No such file or directory''"
    by code_simp
  ultimately show ?thesis by (simp only:)
qed

lemma initial_roster:
  "ais (multi_ai_consultation_init sid None)
     = [(''legal'', legal_ai)] @ (''tech'', tech_ai) # [(''business'', business_ai)]"
  by (simp add: multi_ai_consultation_init_def setup_ai_personas_def Let_def)

text \<open>
  The theorem in the world where the Python client and the command line both fail: Tech-AI
  answers with the text of the error, and the round of the three registered personas has
  three responses, the second being that of Tech-AI with the text of the error.
\<close>

theorem first_round_survives_failures_witness:
  "is_argsort (numpy_argsort failing_env)
   \<and> kb_consistent (tech_ai :: nat ai_persona)
   \<and> (\<exists>prompt. build_prompt failing_env tech_ai ''Should we scrape competitor pricing?''
                   example_transcript None = Inr prompt
                 \<and> generation_fails failing_env tech_ai prompt [])
   \<and> (\<exists>calls'. generate_response failing_env tech_ai ''Should we scrape competitor pricing?''
                   example_transcript None []
                 = (Inr (Some ''CLI Error: No such file or directory''), calls'))
   \<and> list_all (\<lambda>(key, ai). kb_consistent ai) (ais (multi_ai_consultation_init ''20250101_120000'' None
                                                   :: nat multi_ai_consultation))
   \<and> ais (multi_ai_consultation_init ''20250101_120000'' None :: nat multi_ai_consultation)
       = [(''legal'', legal_ai)] @ (''tech'', tech_ai) # [(''business'', business_ai)]
   \<and> (\<exists>responses s' calls'.
          first_round failing_env (ais (multi_ai_consultation_init ''20250101_120000'' None))
            ''Should we scrape competitor pricing?''
            ([], multi_ai_consultation_init ''20250101_120000'' None, []) = (Inr responses, s', calls')
        \<and> length responses = 3
        \<and> map speaker responses = [''Legal-AI'', ''Tech-AI'', ''Business-AI'']
        \<and> responses ! 1 = \<lparr>speaker = ''Tech-AI'',
                              message = Some ''CLI Error: No such file or directory'',
                              ai_key = ''tech''\<rparr>)"
proof -
  define s0 :: "nat multi_ai_consultation" where "s0 = multi_ai_consultation_init ''20250101_120000'' None"
  define q where "q = ''Should we scrape competitor pricing?''"
  have sa: "is_argsort (numpy_argsort failing_env)" by (rule failing_env_argsort)
  have c: "kb_consistent (tech_ai :: nat ai_persona)" by (simp add: kb_consistent_def)
  have l: "list_all (\<lambda>(key, ai). kb_consistent ai) (ais s0)"
    unfolding s0_def by (rule roster_init)
  have ro: "ais s0 = [(''legal'', legal_ai)] @ (''tech'', tech_ai) # [(''business'', business_ai)]"
    unfolding s0_def by (rule initial_roster)
  note t = first_round_survives_failures[OF sa, where p = "tech_ai :: nat ai_persona"
      and user_input = q and ctx = example_transcript and other = None and calls = "[]"
      and roster = "ais s0" and s = s0 and kb = legal_knowledge_base_init
      and registered = "ais s0" and sid = "''20250101_120000''" and pm = None]
  from build_prompt_consistent[OF sa c] obtain prompt where
    b: "build_prompt failing_env tech_ai q example_transcript None = Inr prompt"
    by blast
  have f: "generation_fails failing_env tech_ai prompt []" by (rule failing_env_fails)
  have p2: "\<exists>prompt. build_prompt failing_env tech_ai q example_transcript None = Inr prompt
                 \<and> generation_fails failing_env tech_ai prompt []"
    using b f by (intro exI conjI)
  note t1 = t[THEN conjunct1, rule_format, OF c, THEN conjunct2, rule_format, OF conjI[OF b f],
      THEN conjunct1]
  have e: "\<exists>calls'. generate_response failing_env tech_ai q example_transcript None []
                 = (Inr (Some ''CLI Error: No such file or directory''), calls')"
    using t1 by (simp only: failing_env_failure_text)
  note t2 = t[THEN conjunct2, THEN conjunct1, rule_format, OF l]
  from t2 obtain responses s' calls' where
    r: "first_round failing_env (ais s0) q ([], s0, []) = (Inr responses, s', calls')"
    and len: "length responses = length (ais s0)"
    and sp: "map speaker responses = map (\<lambda>(key, ai). name ai) (ais s0)"
    and entry: "\<forall>pre key ai post. ais s0 = pre @ (key, ai) # post \<longrightarrow>
               (\<exists>s_mid calls_mid reply calls_next.
                   first_round failing_env pre q ([], s0, [])
                     = (Inr (take (length pre) responses), s_mid, calls_mid)
                 \<and> generate_response failing_env ai q (conversation_history s_mid) None calls_mid
                     = (Inr reply, calls_next)
                 \<and> responses ! length pre = \<lparr>speaker = name ai, message = reply, ai_key = key\<rparr>
                 \<and> (\<forall>prompt. build_prompt failing_env ai q (conversation_history s_mid) None = Inr prompt
                              \<and> generation_fails failing_env ai prompt calls_mid \<longrightarrow>
                        reply = Some (str_strip (failure_text failing_env ai prompt calls_mid))
                      \<and> error_text (str_strip (failure_text failing_env ai prompt calls_mid))))"
    by (elim exE conjE)
  from entry[rule_format, OF ro] obtain s_mid calls_mid reply calls_next where
    "first_round failing_env [(''legal'', legal_ai)] q ([], s0, [])
       = (Inr (take (length [(''legal'', legal_ai :: nat ai_persona)]) responses), s_mid, calls_mid)"
    and "generate_response failing_env tech_ai q (conversation_history s_mid) None calls_mid
       = (Inr reply, calls_next)"
    and at: "responses ! length [(''legal'', legal_ai :: nat ai_persona)]
           = \<lparr>speaker = name (tech_ai :: nat ai_persona), message = reply, ai_key = ''tech''\<rparr>"
    and fl: "\<forall>prompt. build_prompt failing_env tech_ai q (conversation_history s_mid) None = Inr prompt
                              \<and> generation_fails failing_env tech_ai prompt calls_mid \<longrightarrow>
                        reply = Some (str_strip (failure_text failing_env tech_ai prompt calls_mid))
                      \<and> error_text (str_strip (failure_text failing_env tech_ai prompt calls_mid))"
    by (elim exE conjE)
  from build_prompt_consistent[OF sa c] obtain prompt2 where
    b2: "build_prompt failing_env tech_ai q (conversation_history s_mid) None = Inr prompt2"
    by blast
  have f2: "generation_fails failing_env tech_ai prompt2 calls_mid" by (rule failing_env_fails)
  from fl[rule_format, OF conjI[OF b2 f2], THEN conjunct1]
  have rep: "reply = Some ''CLI Error: No such file or directory''"
    by (simp only: failing_env_failure_text)
  have at1: "responses ! 1 = \<lparr>speaker = ''Tech-AI'',
                              message = Some ''CLI Error: No such file or directory'',
                              ai_key = ''tech''\<rparr>"
    using at by (simp add: rep)
  have "length (ais s0) = 3" by (simp add: ro)
  with len have len3: "length responses = 3" by simp
  have sp3: "map speaker responses = [''Legal-AI'', ''Tech-AI'', ''Business-AI'']"
    using sp unfolding s0_def roster_init .
  have p5: "\<exists>responses s' calls'.
          first_round failing_env (ais s0) q ([], s0, []) = (Inr responses, s', calls')
        \<and> length responses = 3
        \<and> map speaker responses = [''Legal-AI'', ''Tech-AI'', ''Business-AI'']
        \<and> responses ! 1 = \<lparr>speaker = ''Tech-AI'',
                              message = Some ''CLI Error: No such file or directory'',
                              ai_key = ''tech''\<rparr>"
    using r len3 sp3 at1 by (intro exI conjI)
  from sa c p2 e l ro p5 show ?thesis unfolding s0_def q_def by (intro conjI)
qed

section \<open>The speakers of the transcript\<close>

lemma sample_pool_subset:
  "k \<le> length pool \<Longrightarrow> set (sample_pool drw i pool k) \<subseteq> set pool"
proof (induction k arbitrary: pool i)
  case 0
  then show ?case by simp
next
  case (Suc k)
  then have ne: "pool \<noteq> []" by auto
  define j where "j = drw i mod length pool"
  have j: "j < length pool" using ne by (simp add: j_def)
  define pool' where "pool' = butlast (pool[j := last pool])"
  have "set pool' \<subseteq> set (pool[j := last pool])"
    unfolding pool'_def by (auto dest: in_set_butlastD)
  also have "\<dots> \<subseteq> insert (last pool) (set pool)" by (rule set_update_subset_insert)
  also have "\<dots> = set pool" using ne by auto
  finally have sub: "set pool' \<subseteq> set pool" .
  have "k \<le> length pool'" using Suc.prems by (simp add: pool'_def)
  from Suc.IH[OF this, of "Suc i"] sub have "set (sample_pool drw (Suc i) pool' k) \<subseteq> set pool"
    by blast
  moreover have "pool ! j \<in> set pool" using j by simp
  ultimately show ?case by (simp add: Let_def j_def pool'_def)
qed

lemma random_sample_subset:
  "random_sample drw population k = Inr xs \<Longrightarrow> set xs \<subseteq> set population"
  using sample_pool_subset[of k population drw 1]
  by (auto simp: random_sample_def split: if_splits)

lemma first_round_speakers:
  assumes "\<forall>(key, ai)\<in>set roster. name ai \<in> N"
    and "\<forall>t\<in>set (conversation_history s). speaker t \<in> N"
  shows "\<forall>t\<in>set (conversation_history (fst (snd (first_round env roster user_input (responses, s, calls))))).
           speaker t \<in> N"
  using assms
proof (induction roster arbitrary: responses s calls)
  case Nil
  then show ?case by simp
next
  case (Cons a roster)
  obtain key ai where a: "a = (key, ai)" by (cases a)
  obtain r calls1 where g: "generate_response env ai user_input (conversation_history s) None calls = (r, calls1)"
    by (cases "generate_response env ai user_input (conversation_history s) None calls")
  show ?case
  proof (cases r)
    case (Inl e)
    with g a Cons.prems(2) show ?thesis by simp
  next
    case (Inr reply)
    have "\<forall>t\<in>set (conversation_history (add_message env s (name ai) reply None)). speaker t \<in> N"
      using Cons.prems a by (simp add: conversation_history_add_message)
    moreover have "\<forall>(key, ai)\<in>set roster. name ai \<in> N" using Cons.prems(1) by simp
    ultimately show ?thesis using g a Inr Cons.IH by simp
  qed
qed

lemma follow_up_round_speakers:
  assumes "\<forall>(key, ai)\<in>set roster. name ai \<in> N"
    and "\<forall>t\<in>set (conversation_history s). speaker t \<in> N"
  shows "\<forall>t\<in>set (conversation_history (fst (snd (follow_up_round env roster user_input (responses, s, calls))))).
           speaker t \<in> N"
  using assms
proof (induction roster arbitrary: responses s calls)
  case Nil
  then show ?case by simp
next
  case (Cons a roster)
  obtain key ai where a: "a = (key, ai)" by (cases a)
  obtain r calls1 where g: "generate_response env ai user_input (conversation_history s) (Some responses) calls = (r, calls1)"
    by (cases "generate_response env ai user_input (conversation_history s) (Some responses) calls")
  show ?case
  proof (cases r)
    case (Inl e)
    with g a Cons.prems(2) show ?thesis by simp
  next
    case (Inr reply)
    have "\<forall>t\<in>set (conversation_history (add_message env s (name ai) reply None)). speaker t \<in> N"
      using Cons.prems a by (simp add: conversation_history_add_message)
    moreover have "\<forall>(key, ai)\<in>set roster. name ai \<in> N" using Cons.prems(1) by simp
    ultimately show ?thesis using g a Inr Cons.IH by simp
  qed
qed

lemma generate_ai_responses_speakers:
  assumes "\<forall>(key, ai)\<in>set (ais s). name ai \<in> N"
    and "\<forall>t\<in>set (conversation_history s). speaker t \<in> N"
  shows "\<forall>t\<in>set (conversation_history (fst (snd (generate_ai_responses env d s user_input calls)))).
           speaker t \<in> N"
proof -
  obtain r s1 calls1 where f: "first_round env (ais s) user_input ([], s, calls) = (r, s1, calls1)"
    by (cases "first_round env (ais s) user_input ([], s, calls)")
  have h1: "\<forall>t\<in>set (conversation_history s1). speaker t \<in> N"
    using first_round_speakers[OF assms, of env user_input "[]" calls] f by simp
  have a1: "ais s1 = ais s" using first_round_ais[of env "ais s" user_input "[]" s calls] f by simp
  show ?thesis
  proof (cases r)
    case (Inl e)
    with f h1 show ?thesis by (simp add: generate_ai_responses_def)
  next
    case (Inr responses)
    show ?thesis
    proof (cases "random_random d < 0.6")
      case False
      with f Inr h1 show ?thesis by (simp add: generate_ai_responses_def)
    next
      case True
      show ?thesis
      proof (cases "random_sample (draw d) (ais s1) (random_randint_1_2 (draw d))")
        case (Inl e)
        with f Inr True h1 show ?thesis by (simp add: generate_ai_responses_def)
      next
        case sm: (Inr follow_up_ais)
        have "\<forall>(key, ai)\<in>set follow_up_ais. name ai \<in> N"
        proof
          fix x assume "x \<in> set follow_up_ais"
          with random_sample_subset[OF sm] have "x \<in> set (ais s)" unfolding a1 by (rule subsetD)
          with assms(1) show "case x of (key, ai) \<Rightarrow> name ai \<in> N" by (rule bspec)
        qed
        from follow_up_round_speakers[OF this h1, of env user_input responses calls1]
        show ?thesis using f Inr True sm by (simp add: generate_ai_responses_def)
      qed
    qed
  qed
qed

lemma consultation_turn_speakers:
  assumes "\<forall>(key, ai)\<in>set (ais s). name ai \<in> N"
    and "\<forall>t\<in>set (conversation_history s). speaker t \<in> N"
    and "{''You'', ''Legal-AI'', ''Tech-AI'', ''Business-AI''} \<subseteq> N"
  shows "\<forall>t\<in>set (conversation_history (fst (snd (snd (consultation_turn env d s user_input calls))))).
           speaker t \<in> N"
proof -
  define s1 where "s1 = add_message env s ''You'' (Some user_input) None"
  have h1: "\<forall>t\<in>set (conversation_history s1). speaker t \<in> N"
    using assms(2,3) by (simp add: s1_def conversation_history_add_message)
  have a1: "\<forall>(key, ai)\<in>set (ais s1). name ai \<in> N" using assms(1) by (simp add: s1_def)
  show ?thesis
  proof (cases "check_ethical_boundaries user_input")
    case True
    with generate_ai_responses_speakers[OF a1 h1, of env d user_input calls]
    show ?thesis by (simp add: consultation_turn_def s1_def[symmetric] Let_def split: prod.splits)
  next
    case False
    with h1 assms(3) show ?thesis
      by (simp add: consultation_turn_def s1_def[symmetric] handle_unethical_request_def Let_def
            conversation_history_add_message)
  qed
qed

lemma consultation_loop_speakers:
  assumes "\<forall>(key, ai)\<in>set (ais s). name ai \<in> N"
    and "\<forall>t\<in>set (conversation_history s). speaker t \<in> N"
    and "{''You'', ''Legal-AI'', ''Tech-AI'', ''Business-AI''} \<subseteq> N"
  shows "\<forall>t\<in>set (conversation_history (fst (consultation_loop env s events calls))). speaker t \<in> N"
  using assms(1,2)
proof (induction events arbitrary: s calls)
  case Nil
  then show ?case by simp
next
  case (Cons ev events)
  show ?case
  proof (cases ev)
    case KeyboardInterrupt
    with Cons.prems show ?thesis by simp
  next
    case (Line typed d)
    define user_input where "user_input = str_strip typed"
    consider (quit) "str_lower user_input \<in> set [''quit'', ''exit'', ''q'']"
      | (empty) "str_lower user_input \<notin> set [''quit'', ''exit'', ''q'']" "user_input = []"
      | (turn) "str_lower user_input \<notin> set [''quit'', ''exit'', ''q'']" "user_input \<noteq> []"
      by blast
    then show ?thesis
    proof cases
      case quit
      then have "consultation_loop env s (ev # events) calls = (s, Some (save_conversation s), calls)"
        unfolding Line consultation_loop.simps Let_def user_input_def[symmetric] by (simp only: if_True)
      with Cons.prems(2) show ?thesis by simp
    next
      case empty
      then have "consultation_loop env s (ev # events) calls = consultation_loop env s events calls"
        unfolding Line consultation_loop.simps Let_def user_input_def[symmetric]
        by simp
      with Cons.IH[OF Cons.prems] show ?thesis by simp
    next
      case turn
      obtain b r s' calls' where t: "consultation_turn env d s user_input calls = (b, r, s', calls')"
        by (cases "consultation_turn env d s user_input calls") auto
      have a: "ais s' = ais s" using consultation_turn_ais[of env d s user_input calls] t by simp
      have h: "\<forall>t\<in>set (conversation_history s'). speaker t \<in> N"
        using consultation_turn_speakers[OF Cons.prems assms(3), of env d user_input calls] t by simp
      have ih: "\<forall>t\<in>set (conversation_history (fst (consultation_loop env s' events calls'))). speaker t \<in> N"
        by (rule Cons.IH) (use a h Cons.prems in simp_all)
      from turn t have "consultation_loop env s (ev # events) calls = consultation_loop env s' events calls'"
        unfolding Line consultation_loop.simps Let_def user_input_def[symmetric]
        by (simp only: if_False prod.case)
      with ih show ?thesis by simp
    qed
  qed
qed

lemma consultation_loop_saved:
  "consultation_loop env s events calls = (s', Some sv, calls') \<Longrightarrow> sv = save_conversation s'"
proof (induction events arbitrary: s calls)
  case Nil
  then show ?case by simp
next
  case (Cons ev events)
  show ?case
  proof (cases ev)
    case KeyboardInterrupt
    with Cons.prems show ?thesis by auto
  next
    case (Line typed d)
    define user_input where "user_input = str_strip typed"
    consider (quit) "str_lower user_input \<in> set [''quit'', ''exit'', ''q'']"
      | (empty) "str_lower user_input \<notin> set [''quit'', ''exit'', ''q'']" "user_input = []"
      | (turn) "str_lower user_input \<notin> set [''quit'', ''exit'', ''q'']" "user_input \<noteq> []"
      by blast
    then show ?thesis
    proof cases
      case quit
      then have "consultation_loop env s (ev # events) calls = (s, Some (save_conversation s), calls)"
        unfolding Line consultation_loop.simps Let_def user_input_def[symmetric] by (simp only: if_True)
      with Cons.prems show ?thesis by auto
    next
      case empty
      then have "consultation_loop env s (ev # events) calls = consultation_loop env s events calls"
        unfolding Line consultation_loop.simps Let_def user_input_def[symmetric]
        by simp
      with Cons.prems Cons.IH show ?thesis by simp
    next
      case turn
      obtain b r s1 calls1 where t: "consultation_turn env d s user_input calls = (b, r, s1, calls1)"
        by (cases "consultation_turn env d s user_input calls") auto
      from turn t have "consultation_loop env s (ev # events) calls = consultation_loop env s1 events calls1"
        unfolding Line consultation_loop.simps Let_def user_input_def[symmetric]
        by (simp only: if_False prod.case)
      with Cons.prems Cons.IH show ?thesis by simp
    qed
  qed
qed

lemma follow_up_round_labels:
  "follow_up_round env roster user_input (responses, s, calls) = (Inr responses', s', calls') \<Longrightarrow>
     \<exists>new. responses' = responses @ new
       \<and> map speaker new = map (\<lambda>(key, ai). name ai @ '' (follow-up)'') roster
       \<and> spoken (conversation_history s')
           = spoken (conversation_history s) @ zip (map (\<lambda>(key, ai). name ai) roster) (map message new)"
proof (induction roster arbitrary: responses s calls)
  case Nil
  then show ?case by simp
next
  case (Cons a roster)
  obtain key ai where a: "a = (key, ai)" by (cases a)
  obtain r calls1 where g: "generate_response env ai user_input (conversation_history s) (Some responses) calls = (r, calls1)"
    by (cases "generate_response env ai user_input (conversation_history s) (Some responses) calls")
  show ?case
  proof (cases r)
    case (Inl e)
    with g a Cons.prems show ?thesis by simp
  next
    case (Inr reply)
    define x where "x = \<lparr>speaker = name ai @ '' (follow-up)'', message = reply, ai_key = key\<rparr>"
    from Cons.prems g a Inr have
      "follow_up_round env roster user_input
         (responses @ [x], add_message env s (name ai) reply None, calls1) = (Inr responses', s', calls')"
      by (simp add: x_def)
    from Cons.IH[OF this] obtain new where
      n: "responses' = (responses @ [x]) @ new"
      and sp: "map speaker new = map (\<lambda>(key, ai). name ai @ '' (follow-up)'') roster"
      and h: "spoken (conversation_history s')
           = spoken (conversation_history (add_message env s (name ai) reply None))
               @ zip (map (\<lambda>(key, ai). name ai) roster) (map message new)"
      by blast
    have "responses' = responses @ (x # new)" using n by simp
    moreover have "map speaker (x # new) = map (\<lambda>(key, ai). name ai @ '' (follow-up)'') (a # roster)"
      using sp by (simp add: a x_def)
    moreover have "spoken (conversation_history s')
           = spoken (conversation_history s)
               @ zip (map (\<lambda>(key, ai). name ai) (a # roster)) (map message (x # new))"
      using h by (simp add: a x_def)
    ultimately show ?thesis by blast
  qed
qed

lemma bare_names_no_suffix:
  "nm \<in> {''System'', ''You'', ''Legal-AI'', ''Tech-AI'', ''Business-AI''}
     \<Longrightarrow> \<not> suffix '' (follow-up)'' nm"
  by (auto simp: suffix_to_prefix)

lemma registered_names:
  assumes "s0 = multi_ai_consultation_init sid pm
           \<or> s0 = integrate_legal_rag (multi_ai_consultation_init sid pm) kb"
  shows "\<forall>(key, ai)\<in>set (ais s0). name ai \<in> {''System'', ''You'', ''Legal-AI'', ''Tech-AI'', ''Business-AI''}"
    and "conversation_history s0 = []"
proof -
  have nm: "map (\<lambda>(key, ai). name ai) (ais s0) = [''Legal-AI'', ''Tech-AI'', ''Business-AI'']"
    using assms by (elim disjE) (simp_all only: roster_integrate roster_init)
  show "\<forall>(key, ai)\<in>set (ais s0). name ai \<in> {''System'', ''You'', ''Legal-AI'', ''Tech-AI'', ''Business-AI''}"
  proof
    fix x assume "x \<in> set (ais s0)"
    then have "(\<lambda>(key, ai). name ai) x \<in> set (map (\<lambda>(key, ai). name ai) (ais s0))"
      by (rule imageI[of x "set (ais s0)" "\<lambda>(key, ai). name ai", unfolded set_map[symmetric]])
    then show "case x of (key, ai) \<Rightarrow> name ai \<in> {''System'', ''You'', ''Legal-AI'', ''Tech-AI'', ''Business-AI''}"
      unfolding nm by auto
  qed
  show "conversation_history s0 = []"
    using assms
    by (elim disjE)
       (simp_all add: integrate_legal_rag_def multi_ai_consultation_init_def setup_ai_personas_def Let_def)
qed

text \<open>
  Claim C10. In a session of the orchestrator as constructed (with or without the knowledge
  base bound to Legal-AI), after any sequence of user events every entry of the transcript
  has one of the speakers System, You, Legal-AI, Tech-AI, Business-AI, none of which ends in
  \<open>(follow-up)\<close>; the saved session holds exactly that transcript; and a follow-up round
  labels each response it returns with the persona's name followed by \<open>(follow-up)\<close> while
  it appends the same messages to the transcript under the plain name.
\<close>

theorem transcript_speakers_are_bare:
  assumes "s0 = multi_ai_consultation_init sid pm
           \<or> s0 = integrate_legal_rag (multi_ai_consultation_init sid pm) kb"
    and "run_consultation env s0 events calls = (s', saved, calls')"
  shows "(\<forall>t\<in>set (conversation_history s').
            speaker t \<in> {''System'', ''You'', ''Legal-AI'', ''Tech-AI'', ''Business-AI''}
            \<and> \<not> suffix '' (follow-up)'' (speaker t))
     \<and> (\<forall>sv. saved = Some sv \<longrightarrow> saved_conversation_history sv = conversation_history s')
     \<and> (\<forall>responses'' s'' calls''.
           follow_up_round env chosen user_input (responses, s, calls0) = (Inr responses'', s'', calls'')
           \<longrightarrow> (\<exists>new. responses'' = responses @ new
                  \<and> map speaker new = map (\<lambda>(key, ai). name ai @ '' (follow-up)'') chosen
                  \<and> spoken (conversation_history s'')
                      = spoken (conversation_history s)
                          @ zip (map (\<lambda>(key, ai). name ai) chosen) (map message new)))"
proof (intro conjI allI impI ballI)
  define N where "N = {''System'', ''You'', ''Legal-AI'', ''Tech-AI'', ''Business-AI''}"
  define s1 where "s1 = add_message env s0 ''System'' (Some ''Multi-AI consultation session started'') None"
  have names: "\<forall>(key, ai)\<in>set (ais s1). name ai \<in> N"
    using registered_names(1)[OF assms(1)] by (simp add: s1_def N_def)
  have hist: "\<forall>t\<in>set (conversation_history s1). speaker t \<in> N"
    using registered_names(2)[OF assms(1)] by (simp add: s1_def N_def conversation_history_add_message)
  have sub: "{''You'', ''Legal-AI'', ''Tech-AI'', ''Business-AI''} \<subseteq> N" by (simp add: N_def)
  have loop: "consultation_loop env s1 events calls = (s', saved, calls')"
    using assms(2) by (simp add: run_consultation_def s1_def)
  from consultation_loop_speakers[OF names hist sub, of env events calls] loop
  have all: "\<forall>t\<in>set (conversation_history s'). speaker t \<in> N" by simp
  {
    fix t assume "t \<in> set (conversation_history s')"
    with all have m: "speaker t \<in> N" by (rule bspec)
    then show "speaker t \<in> {''System'', ''You'', ''Legal-AI'', ''Tech-AI'', ''Business-AI''}"
      by (simp only: N_def)
    from m show "\<not> suffix '' (follow-up)'' (speaker t)"
      unfolding N_def by (rule bare_names_no_suffix)
  }
  {
    fix sv assume "saved = Some sv"
    with loop have "sv = save_conversation s'" by (auto dest: consultation_loop_saved)
    then show "saved_conversation_history sv = conversation_history s'"
      by (simp add: save_conversation_def)
  }
  {
    fix responses'' s'' calls''
    assume "follow_up_round env chosen user_input (responses, s, calls0) = (Inr responses'', s'', calls'')"
    then show "\<exists>new. responses'' = responses @ new
                  \<and> map speaker new = map (\<lambda>(key, ai). name ai @ '' (follow-up)'') chosen
                  \<and> spoken (conversation_history s'')
                      = spoken (conversation_history s)
                          @ zip (map (\<lambda>(key, ai). name ai) chosen) (map message new)"
      by (rule follow_up_round_labels)
  }
qed

lemma follow_up_round_total:
  assumes "is_argsort (numpy_argsort env)" and "list_all (\<lambda>(key, ai). kb_consistent ai) roster"
  shows "\<exists>responses' s' calls'.
           follow_up_round env roster user_input (responses, s, calls) = (Inr responses', s', calls')"
  using assms(2)
proof (induction roster arbitrary: responses s calls)
  case Nil
  then show ?case by simp
next
  case (Cons a roster)
  obtain key ai where a: "a = (key, ai)" by (cases a)
  from Cons.prems a have c: "kb_consistent ai" and rest: "list_all (\<lambda>(key, ai). kb_consistent ai) roster"
    by simp_all
  from generate_response_total[OF assms(1) c] obtain reply calls1 where
    g: "generate_response env ai user_input (conversation_history s) (Some responses) calls = (Inr reply, calls1)"
    by blast
  from Cons.IH[OF rest] g a show ?case by simp
qed

lemma mock_env_argsort: "is_argsort (numpy_argsort mock_env)"
  by (simp add: mock_env_def is_argsort_insertion_argsort)

lemma example_lines:
  "str_strip ''Should we track users?'' \<noteq> []"
  "str_lower (str_strip ''Should we track users?'') \<notin> set [''quit'', ''exit'', ''q'']"
  "str_lower (str_strip ''quit'') \<in> set [''quit'', ''exit'', ''q'']"
  by code_simp+

text \<open>
  The theorem at a session of one question and then \<open>quit\<close>, and at a follow-up round of
  Tech-AI.
\<close>

theorem transcript_speakers_are_bare_witness:
  "(\<exists>s' sv calls'.
      run_consultation mock_env (multi_ai_consultation_init ''20250101_120000'' None)
        [Line ''Should we track users?'' with_follow_up, Line ''quit'' no_follow_up] []
        = (s', Some sv, calls')
    \<and> saved_conversation_history sv = conversation_history s'
    \<and> list_all (\<lambda>t. speaker t \<in> {''System'', ''You'', ''Legal-AI'', ''Tech-AI'', ''Business-AI''}
                    \<and> \<not> suffix '' (follow-up)'' (speaker t))
          (saved_conversation_history sv))
   \<and> (\<exists>new s'' calls''.
         follow_up_round mock_env [(''tech'', tech_ai)] ''Should we track users?''
           ([], multi_ai_consultation_init ''20250101_120000'' None, []) = (Inr new, s'', calls'')
       \<and> map speaker new = [''Tech-AI (follow-up)'']
       \<and> map fst (spoken (conversation_history s'')) = [''Tech-AI''])"
proof -
  define s0 :: "nat multi_ai_consultation" where "s0 = multi_ai_consultation_init ''20250101_120000'' None"
  define s1 where "s1 = add_message mock_env s0 ''System'' (Some ''Multi-AI consultation session started'') None"
  have init: "s0 = multi_ai_consultation_init ''20250101_120000'' None
           \<or> s0 = integrate_legal_rag (multi_ai_consultation_init ''20250101_120000'' None) example_store"
    by (simp add: s0_def)
  obtain b r s2 calls2 where
    t: "consultation_turn mock_env with_follow_up s1 (str_strip ''Should we track users?'') [] = (b, r, s2, calls2)"
    by (cases "consultation_turn mock_env with_follow_up s1 (str_strip ''Should we track users?'') []") auto
  have run: "run_consultation mock_env s0
        [Line ''Should we track users?'' with_follow_up, Line ''quit'' no_follow_up] []
        = (s2, Some (save_conversation s2), calls2)"
    unfolding run_consultation_def s1_def[symmetric] consultation_loop.simps Let_def
    using example_lines t by (simp only: if_True if_False prod.case)
  have fu: "list_all (\<lambda>(key, ai). kb_consistent ai) [(''tech'', tech_ai :: nat ai_persona)]"
    by (simp add: kb_consistent_def)
  from follow_up_round_total[OF mock_env_argsort fu] obtain new s'' calls'' where
    f: "follow_up_round mock_env [(''tech'', tech_ai)] ''Should we track users?'' ([], s0, [])
          = (Inr new, s'', calls'')"
    by blast
  note w = transcript_speakers_are_bare[OF init run, of "[(''tech'', tech_ai)]"
      "''Should we track users?''" "[]" s0 "[]"]
  from w have a: "\<forall>t\<in>set (conversation_history s2).
            speaker t \<in> {''System'', ''You'', ''Legal-AI'', ''Tech-AI'', ''Business-AI''}
            \<and> \<not> suffix '' (follow-up)'' (speaker t)"
    by (rule conjunct1)
  from w have sv: "saved_conversation_history (save_conversation s2) = conversation_history s2"
    by (simp add: save_conversation_def)
  from a have la: "list_all (\<lambda>t. speaker t \<in> {''System'', ''You'', ''Legal-AI'', ''Tech-AI'', ''Business-AI''}
                    \<and> \<not> suffix '' (follow-up)'' (speaker t))
          (saved_conversation_history (save_conversation s2))"
    unfolding sv list_all_iff .
  from w f obtain new' where
    n: "new = [] @ new'"
    and sp: "map speaker new' = map (\<lambda>(key, ai). name ai @ '' (follow-up)'') [(''tech'', tech_ai :: nat ai_persona)]"
    and h: "spoken (conversation_history s'')
              = spoken (conversation_history s0)
                  @ zip (map (\<lambda>(key, ai). name ai) [(''tech'', tech_ai :: nat ai_persona)]) (map message new')"
    by blast
  from sp have len: "length new' = 1" by (metis length_map length_Cons list.size(3) One_nat_def)
  then obtain x where x: "new' = [x]" by (cases new') auto
  have sp1: "map speaker new = [''Tech-AI (follow-up)'']" using n sp by simp
  have h0: "conversation_history s0 = []" by (rule registered_names(2)[OF init])
  have h1: "map fst (spoken (conversation_history s'')) = [''Tech-AI'']"
    using h x by (simp add: h0 spoken_def)
  have p1: "\<exists>s' sv calls'.
      run_consultation mock_env s0
        [Line ''Should we track users?'' with_follow_up, Line ''quit'' no_follow_up] []
        = (s', Some sv, calls')
    \<and> saved_conversation_history sv = conversation_history s'
    \<and> list_all (\<lambda>t. speaker t \<in> {''System'', ''You'', ''Legal-AI'', ''Tech-AI'', ''Business-AI''}
                    \<and> \<not> suffix '' (follow-up)'' (speaker t))
          (saved_conversation_history sv)"
    using run sv la by (intro exI conjI)
  have p2: "\<exists>new s'' calls''.
         follow_up_round mock_env [(''tech'', tech_ai)] ''Should we track users?'' ([], s0, [])
           = (Inr new, s'', calls'')
       \<and> map speaker new = [''Tech-AI (follow-up)'']
       \<and> map fst (spoken (conversation_history s'')) = [''Tech-AI'']"
    using f sp1 h1 by (intro exI conjI)
  from p1 p2 show ?thesis unfolding s0_def by (intro conjI)
qed

end
